theory Spec2Isabelle
  imports Complex_Main
begin

section \<open>Data model\<close>

text \<open>
  The dashboard is one script: it loads a CSV of environment readings per site and a
  workbook of growth records with a sheet per site, then renders three tabs. The model
  follows the script top to bottom. Its inputs are the listing of the data directory
  and the selection of the side bar; its output is the sequence of things shown and
  the way the run ends. The data directory is taken to exist, and the tables to have
  the numeric columns the script reads, with numeric cells; an environment table may
  lack its \<open>time\<close> column.

  A Python \<open>str\<close> is a sequence of Unicode code points; the site names, file names and
  sheet names of the dashboard are Hangul, so they are kept as lists of code points.
\<close>

type_synonym ustr = "nat list"

text \<open>
  A float cell of a DataFrame. \<open>None\<close> is NaN (a missing cell, or Python's \<open>None\<close>
  stored in a column); a present value is the rational that the float64 denotes. The
  means of the overview and of the per-site averages are taken exactly; the group
  means of the growth tab, which the script compares with each other, are taken with
  the rounding of float64, through the parameter \<open>fmean\<close> below.
\<close>

type_synonym num = "rat option"

text \<open>
  The exceptions of the model: a missing dict key; a missing row label of \<open>.loc\<close>;
  the \<open>ValueError\<close> of \<open>pd.concat\<close> on no table and of \<open>idxmax\<close> on no value; a
  pandas reader that raises on the named file.
\<close>

datatype py_error =
    KeyError ustr
  | IndexKeyError nat
  | ValueError
  | ParserError ustr

text \<open>\<open>unicodedata.normalize(form, s)\<close> is a library function: it is a parameter.\<close>

datatype form = NFC | NFD

type_synonym normalizer = "form \<Rightarrow> ustr \<Rightarrow> ustr"

text \<open>
  The mean of a group is a float64 that pandas computes with rounding, and the
  rounding can decide which group mean is the largest. The function from the values
  of a group, none of them NaN and at least one, to their float64 mean is a
  parameter; a float64 is the rational it denotes, and the sum is taken not to
  overflow.
\<close>

type_synonym fmean = "rat list \<Rightarrow> rat"

text \<open>
  One row of a per-site environment CSV; \<open>e_ec\<close> is its measured \<open>ec\<close> column and
  \<open>e_school\<close> the \<open>school\<close> column the loader writes.
\<close>

record env_row =
  time :: ustr
  temperature :: num
  humidity :: num
  ph :: num
  e_ec :: num
  e_school :: ustr

text \<open>
  The table of one environment CSV: its rows, and whether it has the \<open>time\<close> column.
  That column is read for the plotted sites only, by the time-series charts. The
  numeric columns are read for every site, by the per-site averages of the
  environment tab, before anything depends on the selection. In a table without the
  \<open>time\<close> column the \<open>time\<close> field of a row is not read by the charts; it stands
  for the cell of that row in the concatenated table.
\<close>

record env_frame =
  has_time :: bool
  readings :: "env_row list"

text \<open>
  One row of a growth sheet: fresh weight, leaf count and shoot length are the three
  measured columns the script reads; \<open>g_school\<close> and \<open>g_ec\<close> are the columns
  \<open>school\<close> and \<open>ec\<close> the loader writes.
\<close>

record growth_row =
  fresh_weight :: num
  leaf_count :: num
  shoot_length :: num
  g_school :: ustr
  g_ec :: num

text \<open>
  An entry of the data directory, as \<open>iterdir()\<close> yields it. What the pandas readers
  return for it is part of the entry: \<open>read_csv\<close> is the table \<open>pd.read_csv\<close> gives
  (\<open>None\<close> when it raises), \<open>excel\<close> the sheets of \<open>pd.ExcelFile\<close> in workbook
  order, each with the table \<open>parse\<close> gives (\<open>None\<close> when opening raises).
\<close>

record path =
  name :: ustr
  is_file :: bool
  read_csv :: "env_frame option"
  excel :: "(ustr \<times> growth_row list) list option"

type_synonym env_data = "(ustr \<times> env_frame) list"
type_synonym growth_data = "(ustr \<times> growth_row list) list"

section \<open>Fixed reference tables\<close>

text \<open>
  The four site names (Songdo-go, Haneul-go, Ara-go, Dongsan-go; three Hangul syllables
  each), in the order of the table, with the target EC and the display color of each.
\<close>

definition songdo :: ustr where "songdo = [0xC1A1, 0xB3C4, 0xACE0]"
definition haneul :: ustr where "haneul = [0xD558, 0xB298, 0xACE0]"
definition ara :: ustr where "ara = [0xC544, 0xB77C, 0xACE0]"
definition dongsan :: ustr where "dongsan = [0xB3D9, 0xC0B0, 0xACE0]"

definition SCHOOL_EC_INFO :: "(ustr \<times> rat) list" where
  "SCHOOL_EC_INFO = [(songdo, 1), (haneul, 2), (ara, 4), (dongsan, 8)]"

definition SCHOOL_COLOR :: "(ustr \<times> string) list" where
  "SCHOOL_COLOR =
     [(songdo, ''#1f77b4''), (haneul, ''#2ca02c''), (ara, ''#ff7f0e''), (dongsan, ''#d62728'')]"

text \<open>A Python dict keeps insertion order; \<open>d[k] = v\<close> replaces in place or appends.\<close>

fun dict_set :: "('k \<times> 'v) list \<Rightarrow> 'k \<Rightarrow> 'v \<Rightarrow> ('k \<times> 'v) list" where
  "dict_set [] k v = [(k, v)]"
| "dict_set ((k', v') # d) k v =
     (if k' = k then (k, v) # d else (k', v') # dict_set d k v)"

definition dict_keys :: "('k \<times> 'v) list \<Rightarrow> 'k list" where
  "dict_keys d = map fst d"

definition dict_values :: "('k \<times> 'v) list \<Rightarrow> 'v list" where
  "dict_values d = map snd d"

text \<open>\<open>d[k]\<close>: raises \<open>KeyError\<close> on a missing key.\<close>

definition getitem :: "(ustr \<times> 'v) list \<Rightarrow> ustr \<Rightarrow> py_error + 'v" where
  "getitem d k = (case map_of d k of None \<Rightarrow> Inl (KeyError k) | Some v \<Rightarrow> Inr v)"

section \<open>File resolver\<close>

fun find_file_by_name :: "normalizer \<Rightarrow> path list \<Rightarrow> ustr \<Rightarrow> path option" where
  "find_file_by_name N [] target_name = None"
| "find_file_by_name N (f # fs) target_name =
     (if \<not> is_file f then find_file_by_name N fs target_name
      else if N NFC (name f) = N NFC target_name \<or> N NFD (name f) = N NFD target_name
      then Some f
      else find_file_by_name N fs target_name)"

subsection \<open>The Hangul part of Unicode normalization\<close>

text \<open>
  The conjoining-jamo algorithm of the Unicode standard (section 3.12): a precomposed
  syllable decomposes arithmetically into a leading consonant, a vowel and an optional
  trailing consonant, and composition is the inverse. Every other code point is left
  as it is. It instantiates the normalizer on concrete file names.
\<close>

definition SBase :: nat where "SBase = 0xAC00"
definition LBase :: nat where "LBase = 0x1100"
definition VBase :: nat where "VBase = 0x1161"
definition TBase :: nat where "TBase = 0x11A7"
definition LCount :: nat where "LCount = 19"
definition VCount :: nat where "VCount = 21"
definition TCount :: nat where "TCount = 28"
definition NCount :: nat where "NCount = 588"
definition SCount :: nat where "SCount = 11172"

definition is_syllable :: "nat \<Rightarrow> bool" where
  "is_syllable c \<longleftrightarrow> SBase \<le> c \<and> c < SBase + SCount"

definition is_L :: "nat \<Rightarrow> bool" where
  "is_L c \<longleftrightarrow> LBase \<le> c \<and> c < LBase + LCount"

definition is_V :: "nat \<Rightarrow> bool" where
  "is_V c \<longleftrightarrow> VBase \<le> c \<and> c < VBase + VCount"

definition is_T :: "nat \<Rightarrow> bool" where
  "is_T c \<longleftrightarrow> TBase < c \<and> c < TBase + TCount"

definition is_LV :: "nat \<Rightarrow> bool" where
  "is_LV c \<longleftrightarrow> is_syllable c \<and> (c - SBase) mod TCount = 0"

definition decompose_char :: "nat \<Rightarrow> nat list" where
  "decompose_char c =
     (if is_syllable c then
        (let SIndex = c - SBase;
             L = LBase + SIndex div NCount;
             V = VBase + (SIndex mod NCount) div TCount;
             T = TBase + SIndex mod TCount
         in if T = TBase then [L, V] else [L, V, T])
      else [c])"

definition decompose :: "ustr \<Rightarrow> ustr" where
  "decompose s = concat (map decompose_char s)"

fun compose :: "ustr \<Rightarrow> ustr" where
  "compose (a # b # rest) =
     (if is_L a \<and> is_V b
      then compose ((SBase + ((a - LBase) * VCount + (b - VBase)) * TCount) # rest)
      else if is_LV a \<and> is_T b then (a + (b - TBase)) # compose rest
      else a # compose (b # rest))"
| "compose s = s"

fun hangul_normalize :: normalizer where
  "hangul_normalize NFD s = decompose s"
| "hangul_normalize NFC s = compose (decompose s)"

section \<open>Output\<close>

text \<open>
  What the script shows or offers in the browser, in the order it is emitted; titles
  and fixed text are left out.
  \<^item> \<open>St_error\<close>: a message of \<open>st.error\<close>.
  \<^item> \<open>Overview_table\<close> and the four \<open>Metric\<close> cards of the overview: number of
    plants, average temperature, average humidity, optimal EC.
  \<^item> \<open>Env_bar_chart\<close>: the figure of the per-site averages; \<open>Time_series_chart\<close>:
    the chart of one site, with its table and the target EC of its reference line.
  \<^item> \<open>Env_table\<close>, \<open>Env_download\<close>: the concatenated environment table, shown and
    offered as CSV. A download is modelled by the table handed to the serializer.
  \<^item> \<open>Ec_metric\<close>: the card of an EC level, with the mean fresh weight and whether
    it is starred; \<open>Growth_bar_chart\<close>: the four panels of group means and sizes.
  \<^item> \<open>Box_chart\<close>, \<open>Scatter_leaf\<close>, \<open>Scatter_shoot\<close>, \<open>Growth_table\<close>,
    \<open>Growth_download\<close>: all on the concatenated growth table.
\<close>

record overview_row =
  ov_school :: ustr
  ov_ec_target :: rat
  ov_count :: nat
  ov_color :: string

record avg_row =
  avg_school :: ustr
  avg_temperature :: num
  avg_humidity :: num
  avg_ph :: num
  avg_ec_measured :: num
  avg_ec_target :: rat

datatype ui =
    St_error ustr
  | Overview_table "overview_row list"
  | Metric_total nat
  | Metric_temp num
  | Metric_hum num
  | Metric_optimal_ec rat
  | Env_bar_chart "avg_row list"
  | Time_series_chart ustr env_frame rat
  | Env_table "env_row list"
  | Env_download "env_row list"
  | Ec_metric rat num bool
  | Growth_bar_chart "(rat \<times> num) list" "(rat \<times> num) list" "(rat \<times> num) list"
      "(rat \<times> nat) list"
  | Box_chart "growth_row list"
  | Scatter_leaf "growth_row list"
  | Scatter_shoot "growth_row list"
  | Growth_table "growth_row list"
  | Growth_download "growth_row list"

section \<open>Data loading\<close>

text \<open>
  The suffix of a site's environment file name: an underscore, the five Hangul
  syllables of "environment data", and \<open>.csv\<close>.
\<close>

definition env_suffix :: ustr where
  "env_suffix = [0x5F, 0xD658, 0xACBD, 0xB370, 0xC774, 0xD130, 0x2E, 0x63, 0x73, 0x76]"

text \<open>The two messages of \<open>st.error\<close>: environment file not found (followed by the
  file name), growth workbook not found.\<close>

definition env_missing_msg :: ustr where
  "env_missing_msg =
     [0xD658, 0xACBD, 0x20, 0xB370, 0xC774, 0xD130, 0x20, 0xD30C, 0xC77C, 0xC744, 0x20,
      0xCC3E, 0xC744, 0x20, 0xC218, 0x20, 0xC5C6, 0xC2B5, 0xB2C8, 0xB2E4, 0x3A, 0x20]"

definition growth_missing_msg :: ustr where
  "growth_missing_msg =
     [0xC0DD, 0xC721, 0x20, 0xACB0, 0xACFC, 0x20, 0x58, 0x4C, 0x53, 0x58, 0x20, 0xD30C,
      0xC77C, 0xC744, 0x20, 0xCC3E, 0xC744, 0x20, 0xC218, 0x20, 0xC5C6, 0xC2B5, 0xB2C8,
      0xB2E4, 0x2E]"

text \<open>
  A loader emits messages and then raises (\<open>Inl\<close>), returns \<open>None\<close> or returns the
  mapping. The loop over \<open>SCHOOL_EC_INFO.keys()\<close> carries \<open>env_data\<close>.
\<close>

fun load_env_loop ::
  "normalizer \<Rightarrow> path list \<Rightarrow> ustr list \<Rightarrow> env_data \<Rightarrow> ui list \<times> (py_error + env_data option)"
where
  "load_env_loop N DATA_DIR [] env_data = ([], Inr (Some env_data))"
| "load_env_loop N DATA_DIR (school # rest) env_data =
     (let filename = school @ env_suffix in
      case find_file_by_name N DATA_DIR filename of
        None \<Rightarrow> ([St_error (env_missing_msg @ filename)], Inr None)
      | Some file_path \<Rightarrow>
          (case read_csv file_path of
             None \<Rightarrow> ([], Inl (ParserError (name file_path)))
           | Some df \<Rightarrow>
               load_env_loop N DATA_DIR rest
                 (dict_set env_data school
                    (df\<lparr>readings := map (\<lambda>r. r\<lparr>e_school := school\<rparr>) (readings df)\<rparr>))))"

definition load_environment_data ::
  "normalizer \<Rightarrow> path list \<Rightarrow> ui list \<times> (py_error + env_data option)" where
  "load_environment_data N DATA_DIR = load_env_loop N DATA_DIR (dict_keys SCHOOL_EC_INFO) []"

text \<open>
  \<open>str.lower()\<close> on the code points that matter for the comparison with \<open>".xlsx"\<close>:
  only the ASCII capitals lower to ASCII letters \<open>x\<close>, \<open>l\<close>, \<open>s\<close>.
\<close>

definition lower_char :: "nat \<Rightarrow> nat" where
  "lower_char c = (if 0x41 \<le> c \<and> c \<le> 0x5A then c + 0x20 else c)"

definition lower :: "ustr \<Rightarrow> ustr" where
  "lower s = map lower_char s"

fun rfind :: "nat \<Rightarrow> ustr \<Rightarrow> nat option" where
  "rfind c [] = None"
| "rfind c (x # xs) =
     (case rfind c xs of
        Some i \<Rightarrow> Some (Suc i)
      | None \<Rightarrow> if x = c then Some 0 else None)"

text \<open>\<open>Path.suffix\<close>: from the last dot of the name, unless the dot is first or last.\<close>

definition suffix :: "ustr \<Rightarrow> ustr" where
  "suffix nm =
     (case rfind 0x2E nm of
        None \<Rightarrow> []
      | Some i \<Rightarrow> if 0 < i \<and> i + 1 < length nm then drop i nm else [])"

definition xlsx_suffix :: ustr where
  "xlsx_suffix = [0x2E, 0x78, 0x6C, 0x73, 0x78]"

fun find_xlsx :: "path list \<Rightarrow> path option" where
  "find_xlsx [] = None"
| "find_xlsx (f # fs) =
     (if lower (suffix (name f)) = xlsx_suffix then Some f else find_xlsx fs)"

text \<open>\<open>SCHOOL_EC_INFO.get(sheet, None)\<close>.\<close>

definition ec_info_get :: "ustr \<Rightarrow> num" where
  "ec_info_get sheet = map_of SCHOOL_EC_INFO sheet"

fun load_growth_loop :: "(ustr \<times> growth_row list) list \<Rightarrow> growth_data \<Rightarrow> growth_data" where
  "load_growth_loop [] growth_data = growth_data"
| "load_growth_loop ((sheet, df) # rest) growth_data =
     load_growth_loop rest
       (dict_set growth_data sheet
          (map (\<lambda>r. r\<lparr>g_school := sheet, g_ec := ec_info_get sheet\<rparr>) df))"

definition load_growth_data :: "path list \<Rightarrow> ui list \<times> (py_error + growth_data option)" where
  "load_growth_data DATA_DIR =
     (case find_xlsx DATA_DIR of
        None \<Rightarrow> ([St_error growth_missing_msg], Inr None)
      | Some xlsx_path \<Rightarrow>
          (case excel xlsx_path of
             None \<Rightarrow> ([], Inl (ParserError (name xlsx_path)))
           | Some sheets \<Rightarrow> ([], Inr (Some (load_growth_loop sheets [])))))"

section \<open>Aggregation\<close>

text \<open>
  \<open>Series.mean()\<close> skips NaN and is NaN on no values. The averages of the
  environment columns are displayed only; they are kept as exact means.
\<close>

definition present :: "num list \<Rightarrow> rat list" where
  "present xs = concat (map (\<lambda>x. case x of None \<Rightarrow> [] | Some v \<Rightarrow> [v]) xs)"

definition mean :: "num list \<Rightarrow> num" where
  "mean xs =
     (let ys = present xs
      in if ys = [] then None else Some (sum_list ys / of_nat (length ys)))"

text \<open>\<open>pd.concat\<close> stacks the tables row-wise and raises on no table.\<close>

definition concat_frames :: "'r list list \<Rightarrow> py_error + 'r list" where
  "concat_frames dfs = (if dfs = [] then Inl ValueError else Inr (concat dfs))"

text \<open>
  \<open>groupby("ec")\<close>: the groups are the distinct non-null keys in ascending order
  (\<open>sort=True\<close>); rows with a null key belong to no group (\<open>dropna=True\<close>).
\<close>

definition group_keys :: "growth_row list \<Rightarrow> rat list" where
  "group_keys df = sort (remdups (present (map g_ec df)))"

definition groupby_ec :: "growth_row list \<Rightarrow> (rat \<times> growth_row list) list" where
  "groupby_ec df = map (\<lambda>k. (k, filter (\<lambda>r. g_ec r = Some k) df)) (group_keys df)"

text \<open>The mean of a column within a group: NaN skipped, NaN on no values.\<close>

definition group_mean :: "fmean \<Rightarrow> num list \<Rightarrow> num" where
  "group_mean F xs = (let ys = present xs in if ys = [] then None else Some (F ys))"

definition groupby_mean ::
  "fmean \<Rightarrow> (growth_row \<Rightarrow> num) \<Rightarrow> growth_row list \<Rightarrow> (rat \<times> num) list" where
  "groupby_mean F col df = map (\<lambda>(k, g). (k, group_mean F (map col g))) (groupby_ec df)"

definition groupby_size :: "growth_row list \<Rightarrow> (rat \<times> nat) list" where
  "groupby_size df = map (\<lambda>(k, g). (k, length g)) (groupby_ec df)"

text \<open>
  \<open>Series.idxmax()\<close>: the label of the first occurrence of the maximum, NaN skipped.
  On a column with no value to compare, the statement that computes \<open>max_ec\<close> raises
  (in \<open>idxmax\<close> or in the \<open>.loc\<close> that follows, by pandas version); the model raises
  \<open>ValueError\<close>. After \<open>reset_index()\<close> the labels are the positions.
\<close>

fun idxmax_from :: "nat \<Rightarrow> (nat \<times> rat) option \<Rightarrow> num list \<Rightarrow> (nat \<times> rat) option" where
  "idxmax_from i best [] = best"
| "idxmax_from i best (None # xs) = idxmax_from (Suc i) best xs"
| "idxmax_from i best (Some x # xs) =
     (case best of
        None \<Rightarrow> idxmax_from (Suc i) (Some (i, x)) xs
      | Some (j, y) \<Rightarrow>
          if y < x then idxmax_from (Suc i) (Some (i, x)) xs
          else idxmax_from (Suc i) best xs)"

definition idxmax :: "num list \<Rightarrow> py_error + nat" where
  "idxmax xs = (case idxmax_from 0 None xs of None \<Rightarrow> Inl ValueError | Some (i, m) \<Rightarrow> Inr i)"

text \<open>\<open>ec_group.loc[i, "ec"]\<close>: the row with label \<open>i\<close>, then its level.\<close>

definition loc :: "'a list \<Rightarrow> nat \<Rightarrow> py_error + 'a" where
  "loc xs i = (if i < length xs then Inr (xs ! i) else Inl (IndexKeyError i))"

definition ec_group :: "fmean \<Rightarrow> growth_row list \<Rightarrow> (rat \<times> num) list" where
  "ec_group F growth_all = groupby_mean F fresh_weight growth_all"

definition max_ec :: "(rat \<times> num) list \<Rightarrow> py_error + rat" where
  "max_ec grp =
     (case idxmax (map snd grp) of
        Inl e \<Rightarrow> Inl e
      | Inr i \<Rightarrow> (case loc grp i of Inl e \<Rightarrow> Inl e | Inr row \<Rightarrow> Inr (fst row)))"

text \<open>The summary cards: one per group, starred when its level is \<open>max_ec\<close>.\<close>

definition ec_cards :: "(rat \<times> num) list \<Rightarrow> rat \<Rightarrow> ui list" where
  "ec_cards grp mx = map (\<lambda>(k, m). Ec_metric k m (k = mx)) grp"

section \<open>Presentation\<close>

text \<open>
  A tab emits what it shows and ends normally (\<open>None\<close>) or with the exception that
  leaves the script (\<open>Some\<close>); nothing in the script catches an exception.
\<close>

type_synonym rendering = "ui list \<times> py_error option"

text \<open>One part of the script after another: the second runs if the first did not raise.\<close>

fun and_then :: "rendering \<Rightarrow> rendering \<Rightarrow> rendering" where
  "and_then (ev, None) r = (ev @ fst r, snd r)"
| "and_then (ev, Some e) r = (ev, Some e)"

subsection \<open>Tab 1: overview\<close>

fun overview_loop ::
  "growth_data \<Rightarrow> overview_row list \<Rightarrow> nat \<Rightarrow> py_error + (overview_row list \<times> nat)" where
  "overview_loop [] overview_rows total_plants = Inr (overview_rows, total_plants)"
| "overview_loop ((sch, df) # rest) overview_rows total_plants =
     (let count = length df in
      case getitem SCHOOL_EC_INFO sch of
        Inl e \<Rightarrow> Inl e
      | Inr target \<Rightarrow>
          (case getitem SCHOOL_COLOR sch of
             Inl e \<Rightarrow> Inl e
           | Inr color \<Rightarrow>
               overview_loop rest
                 (overview_rows @
                    [\<lparr>ov_school = sch, ov_ec_target = target, ov_count = count,
                      ov_color = color\<rparr>])
                 (total_plants + count)))"

definition pooled_mean :: "(env_row \<Rightarrow> num) \<Rightarrow> env_data \<Rightarrow> py_error + num" where
  "pooled_mean col env_data =
     (case concat_frames (map readings (dict_values env_data)) of
        Inl e \<Rightarrow> Inl e
      | Inr df \<Rightarrow> Inr (mean (map col df)))"

definition avg_temp :: "env_data \<Rightarrow> py_error + num" where
  "avg_temp env_data = pooled_mean temperature env_data"

definition avg_hum :: "env_data \<Rightarrow> py_error + num" where
  "avg_hum env_data = pooled_mean humidity env_data"

definition optimal_ec :: rat where
  "optimal_ec = 2"

definition tab1 :: "env_data \<Rightarrow> growth_data \<Rightarrow> rendering" where
  "tab1 env_data growth_data =
     (case overview_loop growth_data [] 0 of
        Inl e \<Rightarrow> ([], Some e)
      | Inr (overview_rows, total_plants) \<Rightarrow>
          (case avg_temp env_data of
             Inl e \<Rightarrow> ([Overview_table overview_rows], Some e)
           | Inr t \<Rightarrow>
               (case avg_hum env_data of
                  Inl e \<Rightarrow> ([Overview_table overview_rows], Some e)
                | Inr h \<Rightarrow>
                    ([Overview_table overview_rows, Metric_total total_plants,
                      Metric_temp t, Metric_hum h, Metric_optimal_ec optimal_ec], None))))"

subsection \<open>Tab 2: environment\<close>

fun avg_loop :: "env_data \<Rightarrow> avg_row list \<Rightarrow> py_error + avg_row list" where
  "avg_loop [] avg_rows = Inr avg_rows"
| "avg_loop ((sch, df) # rest) avg_rows =
     (case getitem SCHOOL_EC_INFO sch of
        Inl e \<Rightarrow> Inl e
      | Inr target \<Rightarrow>
          avg_loop rest
            (avg_rows @
               [\<lparr>avg_school = sch,
                 avg_temperature = mean (map temperature (readings df)),
                 avg_humidity = mean (map humidity (readings df)),
                 avg_ph = mean (map ph (readings df)),
                 avg_ec_measured = mean (map e_ec (readings df)),
                 avg_ec_target = target\<rparr>]))"

text \<open>The first option of the select box (two Hangul syllables, "all"): every site.\<close>

definition all_option :: ustr where
  "all_option = [0xC804, 0xCCB4]"

definition selectbox_options :: "ustr list" where
  "selectbox_options = all_option # dict_keys SCHOOL_EC_INFO"

definition schools_to_plot :: "env_data \<Rightarrow> ustr \<Rightarrow> ustr list" where
  "schools_to_plot env_data school_option =
     (if school_option = all_option then dict_keys env_data else [school_option])"

text \<open>
  The chart of a plotted site reads \<open>df["time"]\<close> first, which raises a key error on
  a table without that column; the columns it reads next were read for every site by
  \<open>avg_loop\<close>.
\<close>

definition time_column :: ustr where
  "time_column = [0x74, 0x69, 0x6D, 0x65]"

fun time_series_loop :: "env_data \<Rightarrow> ustr list \<Rightarrow> rendering" where
  "time_series_loop env_data [] = ([], None)"
| "time_series_loop env_data (sch # rest) =
     (case getitem env_data sch of
        Inl e \<Rightarrow> ([], Some e)
      | Inr df \<Rightarrow>
          if \<not> has_time df then ([], Some (KeyError time_column))
          else
            (case getitem SCHOOL_EC_INFO sch of
               Inl e \<Rightarrow> ([], Some e)
             | Inr target \<Rightarrow>
                 and_then ([Time_series_chart sch df target], None)
                   (time_series_loop env_data rest)))"

definition env_export :: "env_data \<Rightarrow> rendering" where
  "env_export env_data =
     (case concat_frames (map readings (dict_values env_data)) of
        Inl e \<Rightarrow> ([], Some e)
      | Inr all_env_df \<Rightarrow> ([Env_table all_env_df, Env_download all_env_df], None))"

definition tab2 :: "env_data \<Rightarrow> ustr \<Rightarrow> rendering" where
  "tab2 env_data school_option =
     (case avg_loop env_data [] of
        Inl e \<Rightarrow> ([], Some e)
      | Inr avg_rows \<Rightarrow>
          and_then ([Env_bar_chart avg_rows], None)
            (and_then (time_series_loop env_data (schools_to_plot env_data school_option))
               (env_export env_data)))"

subsection \<open>Tab 3: growth\<close>

definition tab3 :: "fmean \<Rightarrow> growth_data \<Rightarrow> rendering" where
  "tab3 F growth_data =
     (case concat_frames (dict_values growth_data) of
        Inl e \<Rightarrow> ([], Some e)
      | Inr growth_all \<Rightarrow>
          (case max_ec (ec_group F growth_all) of
             Inl e \<Rightarrow> ([], Some e)
           | Inr mx \<Rightarrow>
               (ec_cards (ec_group F growth_all) mx @
                [Growth_bar_chart (ec_group F growth_all)
                   (groupby_mean F leaf_count growth_all)
                   (groupby_mean F shoot_length growth_all)
                   (groupby_size growth_all),
                 Box_chart growth_all, Scatter_leaf growth_all, Scatter_shoot growth_all,
                 Growth_table growth_all, Growth_download growth_all], None)))"

subsection \<open>The script\<close>

text \<open>
  A run ends at the end of the script, at \<open>st.stop()\<close>, or with an exception. Both
  loaders run before the script tests their results; the three tabs follow in order.
\<close>

datatype outcome = Completed | Stopped | Raised py_error

definition render :: "fmean \<Rightarrow> env_data \<Rightarrow> growth_data \<Rightarrow> ustr \<Rightarrow> rendering" where
  "render F env_data growth_data school_option =
     and_then (tab1 env_data growth_data)
       (and_then (tab2 env_data school_option) (tab3 F growth_data))"

definition run_app ::
  "normalizer \<Rightarrow> fmean \<Rightarrow> path list \<Rightarrow> ustr \<Rightarrow> ui list \<times> outcome" where
  "run_app N F DATA_DIR school_option =
     (case load_environment_data N DATA_DIR of
        (ev1, Inl e) \<Rightarrow> (ev1, Raised e)
      | (ev1, Inr env_data) \<Rightarrow>
          (case load_growth_data DATA_DIR of
             (ev2, Inl e) \<Rightarrow> (ev1 @ ev2, Raised e)
           | (ev2, Inr growth_data) \<Rightarrow>
               (case (env_data, growth_data) of
                  (Some env, Some growth) \<Rightarrow>
                    (case render F env growth school_option of
                       (ev3, None) \<Rightarrow> (ev1 @ ev2 @ ev3, Completed)
                     | (ev3, Some e) \<Rightarrow> (ev1 @ ev2 @ ev3, Raised e))
                | _ \<Rightarrow> (ev1 @ ev2, Stopped))))"

fun is_chart :: "ui \<Rightarrow> bool" where
  "is_chart (Env_bar_chart a) = True"
| "is_chart (Time_series_chart s d t) = True"
| "is_chart (Growth_bar_chart a b c d) = True"
| "is_chart (Box_chart d) = True"
| "is_chart (Scatter_leaf d) = True"
| "is_chart (Scatter_shoot d) = True"
| "is_chart u = False"

fun is_ec_metric :: "ui \<Rightarrow> bool" where
  "is_ec_metric (Ec_metric k m b) = True"
| "is_ec_metric u = False"

fun is_growth_output :: "ui \<Rightarrow> bool" where
  "is_growth_output (Ec_metric k m b) = True"
| "is_growth_output (Growth_bar_chart a b c d) = True"
| "is_growth_output (Box_chart d) = True"
| "is_growth_output (Scatter_leaf d) = True"
| "is_growth_output (Scatter_shoot d) = True"
| "is_growth_output (Growth_table d) = True"
| "is_growth_output (Growth_download d) = True"
| "is_growth_output u = False"

fun is_download :: "ui \<Rightarrow> bool" where
  "is_download (Env_download d) = True"
| "is_download (Growth_download d) = True"
| "is_download u = False"

section \<open>Vocabulary of the properties\<close>

text \<open>
  The names on disk rewritten to a normal form, each file to the form \<open>form_of\<close>
  chooses for it.
\<close>

definition normalize_names :: "normalizer \<Rightarrow> (path \<Rightarrow> form) \<Rightarrow> path list \<Rightarrow> path list" where
  "normalize_names N form_of dir = map (\<lambda>p. p\<lparr>name := N (form_of p) (name p)\<rparr>) dir"

text \<open>
  Position \<open>k\<close> holds the value \<open>v\<close>, no value of the column is larger, and every
  value before position \<open>k\<close> is smaller: the first occurrence of the maximum.
\<close>

definition first_max_at :: "num list \<Rightarrow> nat \<Rightarrow> rat \<Rightarrow> bool" where
  "first_max_at xs k v \<longleftrightarrow>
     k < length xs \<and> xs ! k = Some v \<and>
     (\<forall>j < length xs. \<forall>w. xs ! j = Some w \<longrightarrow> w \<le> v \<and> (j < k \<longrightarrow> w < v))"

text \<open>
  For a column of the environment tables: the sum and the number of the values one
  site holds, and the mean in which every row holding a value has the same weight.
\<close>

definition site_sum :: "(env_row \<Rightarrow> num) \<Rightarrow> env_frame \<Rightarrow> rat" where
  "site_sum col df = sum_list (present (map col (readings df)))"

definition site_count :: "(env_row \<Rightarrow> num) \<Rightarrow> env_frame \<Rightarrow> nat" where
  "site_count col df = length (present (map col (readings df)))"

definition row_weighted_mean :: "(env_row \<Rightarrow> num) \<Rightarrow> env_data \<Rightarrow> num" where
  "row_weighted_mean col env_data =
     (let n = sum_list (map (site_count col) (dict_values env_data))
      in if n = 0 then None
         else Some (sum_list (map (site_sum col) (dict_values env_data)) / of_nat n))"

text \<open>
  The other average, which the script does not compute: the mean of the per-site
  means, every site with the same weight.
\<close>

definition mean_of_site_means :: "(env_row \<Rightarrow> num) \<Rightarrow> env_data \<Rightarrow> num" where
  "mean_of_site_means col env_data =
     mean (map (\<lambda>df. mean (map col (readings df))) (dict_values env_data))"

text \<open>
  The two exports of the loaded data: the row-wise concatenation of all per-site
  environment tables, then that of all growth tables; none when a loader returns no
  mapping.
\<close>

definition full_exports :: "normalizer \<Rightarrow> path list \<Rightarrow> ui list" where
  "full_exports N DATA_DIR =
     (case (snd (load_environment_data N DATA_DIR), snd (load_growth_data DATA_DIR)) of
        (Inr (Some env_data), Inr (Some growth_data)) \<Rightarrow>
          [Env_download (concat (map readings (dict_values env_data))),
           Growth_download (concat (dict_values growth_data))]
      | _ \<Rightarrow> [])"

section \<open>Example data\<close>

text \<open>
  A table with the \<open>time\<close> column and one without; a readable CSV of either kind, a
  file no reader can read, and a workbook.
\<close>

definition with_time :: "env_row list \<Rightarrow> env_frame" where
  "with_time df = \<lparr>has_time = True, readings = df\<rparr>"

definition without_time :: "env_row list \<Rightarrow> env_frame" where
  "without_time df = \<lparr>has_time = False, readings = df\<rparr>"

definition env_file :: "ustr \<Rightarrow> env_row list \<Rightarrow> path" where
  "env_file nm df =
     \<lparr>name = nm, is_file = True, read_csv = Some (with_time df), excel = None\<rparr>"

definition env_file_without_time :: "ustr \<Rightarrow> env_row list \<Rightarrow> path" where
  "env_file_without_time nm df =
     \<lparr>name = nm, is_file = True, read_csv = Some (without_time df), excel = None\<rparr>"

definition unreadable_file :: "ustr \<Rightarrow> path" where
  "unreadable_file nm = \<lparr>name = nm, is_file = True, read_csv = None, excel = None\<rparr>"

text \<open>
  The exact mean, which is the float64 mean wherever no rounding occurs, as for a
  group of one value; and a mean that rounds as float64 does on three values 2.675,
  whose float64 mean is 2.6749999999999994.
\<close>

definition exact_mean :: fmean where
  "exact_mean ys = sum_list ys / of_nat (length ys)"


definition workbook_file :: "ustr \<Rightarrow> (ustr \<times> growth_row list) list \<Rightarrow> path" where
  "workbook_file nm sheets = \<lparr>name = nm, is_file = True, read_csv = None, excel = Some sheets\<rparr>"

definition reading :: "ustr \<Rightarrow> rat \<Rightarrow> rat \<Rightarrow> env_row" where
  "reading s t h =
     \<lparr>time = [], temperature = Some t, humidity = Some h, ph = None, e_ec = None, e_school = s\<rparr>"

definition plant :: "ustr \<Rightarrow> num \<Rightarrow> rat \<Rightarrow> growth_row" where
  "plant s e w =
     \<lparr>fresh_weight = Some w, leaf_count = None, shoot_length = None, g_school = s, g_ec = e\<rparr>"

text \<open>\<open>"Sheet1"\<close>, a sheet name outside the reference table, and \<open>"a.xlsx"\<close>.\<close>

definition sheet1 :: ustr where
  "sheet1 = [0x53, 0x68, 0x65, 0x65, 0x74, 0x31]"

definition book_name :: ustr where
  "book_name = [0x61, 0x2E, 0x78, 0x6C, 0x73, 0x78]"

definition site_sheets :: "(ustr \<times> growth_row list) list" where
  "site_sheets =
     [(songdo, [plant [] None 5]), (haneul, [plant [] None (92 / 10)]),
      (ara, [plant [] None (31 / 10)]), (dongsan, [plant [] None 2])]"

text \<open>
  The four environment files under decomposed names, as a file system that stores
  names in NFD lists them; the script asks for the composed names.
\<close>

definition nfd_env_files :: "path list" where
  "nfd_env_files =
    [env_file (hangul_normalize NFD (songdo @ env_suffix)) [reading [] 20 50],
     env_file (hangul_normalize NFD (haneul @ env_suffix)) [reading [] 20 50, reading [] 20 50],
     env_file (hangul_normalize NFD (ara @ env_suffix)) [reading [] 20 50],
     env_file (hangul_normalize NFD (dongsan @ env_suffix)) [reading [] 20 50]]"

text \<open>
  Five directories: a complete one; one without the last site's environment file; one
  whose workbook has a fifth sheet \<open>Sheet1\<close>; one without the last site's file and
  with an unreadable file for the first site; one in which the table of the second
  site has no \<open>time\<close> column.
\<close>

definition dir_nfd :: "path list" where
  "dir_nfd = nfd_env_files @ [workbook_file book_name site_sheets]"

definition dir_missing :: "path list" where
  "dir_missing = butlast nfd_env_files @ [workbook_file book_name site_sheets]"

definition dir_extra :: "path list" where
  "dir_extra =
     nfd_env_files @ [workbook_file book_name (site_sheets @ [(sheet1, [plant [] None 12])])]"

definition dir_unreadable :: "path list" where
  "dir_unreadable =
     unreadable_file (hangul_normalize NFD (songdo @ env_suffix))
       # tl (butlast nfd_env_files) @ [workbook_file book_name site_sheets]"

definition dir_no_time :: "path list" where
  "dir_no_time =
    [env_file (hangul_normalize NFD (songdo @ env_suffix)) [reading [] 20 50],
     env_file_without_time (hangul_normalize NFD (haneul @ env_suffix)) [reading [] 20 50],
     env_file (hangul_normalize NFD (ara @ env_suffix)) [reading [] 20 50],
     env_file (hangul_normalize NFD (dongsan @ env_suffix)) [reading [] 20 50],
     workbook_file book_name site_sheets]"

text \<open>The mappings the loaders build from them.\<close>

definition env_nfd :: env_data where
  "env_nfd =
     [(songdo, with_time [reading songdo 20 50]),
      (haneul, with_time [reading haneul 20 50, reading haneul 20 50]),
      (ara, with_time [reading ara 20 50]), (dongsan, with_time [reading dongsan 20 50])]"

definition env_no_time :: env_data where
  "env_no_time =
     [(songdo, with_time [reading songdo 20 50]), (haneul, without_time [reading haneul 20 50]),
      (ara, with_time [reading ara 20 50]), (dongsan, with_time [reading dongsan 20 50])]"

definition growth_nfd :: growth_data where
  "growth_nfd =
     [(songdo, [plant songdo (Some 1) 5]), (haneul, [plant haneul (Some 2) (92 / 10)]),
      (ara, [plant ara (Some 4) (31 / 10)]), (dongsan, [plant dongsan (Some 8) 2])]"

definition growth_extra :: growth_data where
  "growth_extra = growth_nfd @ [(sheet1, [plant sheet1 None 12])]"

text \<open>Environment mappings with unequal and with equal row counts per site.\<close>

definition env_skewed :: env_data where
  "env_skewed =
     [(songdo, with_time [reading songdo 10 40]),
      (haneul, with_time [reading haneul 20 60, reading haneul 20 60]),
      (ara, with_time [reading ara 10 40]), (dongsan, with_time [reading dongsan 10 40])]"

definition env_equal :: env_data where
  "env_equal =
     [(songdo, with_time [reading songdo 10 40]), (haneul, with_time [reading haneul 20 50]),
      (ara, with_time [reading ara 30 60]), (dongsan, with_time [reading dongsan 40 70])]"


section \<open>Auxiliary facts\<close>

subsection \<open>Laws of the Hangul normalizer\<close>

lemmas hangul_consts = SBase_def LBase_def VBase_def TBase_def LCount_def VCount_def TCount_def NCount_def SCount_def
lemmas hangul_classes = is_syllable_def is_L_def is_V_def is_T_def is_LV_def

lemma decompose_char_plain: "\<not> is_syllable c \<Longrightarrow> decompose_char c = [c]"
  by (simp add: decompose_char_def)

lemma split_index:
  fixes i :: nat
  assumes "i < 11172"
  shows "i div 588 < 19" and "(i mod 588) div 28 < 21" and "i mod 28 < 28"
    and "i = (i div 588 * 21 + (i mod 588) div 28) * 28 + i mod 28"
proof -
  have "i < 19 * 588" using assms by simp
  then show "i div 588 < 19" by (rule less_mult_imp_div_less)
  have "i mod 588 < 21 * 28" by simp
  then show "(i mod 588) div 28 < 21" by (rule less_mult_imp_div_less)
  show "i mod 28 < 28" by simp
  define a r b t where "a = i div 588" and "r = i mod 588" and "b = r div 28" and "t = r mod 28"
  have 1: "i = 588 * a + r" unfolding a_def r_def by simp
  have 2: "r = 28 * b + t" unfolding b_def t_def by simp
  have "(i mod 588) mod 28 = i mod 28" by (rule mod_mod_cancel) simp
  then have 3: "t = i mod 28" unfolding t_def r_def .
  have "i = (a * 21 + b) * 28 + t" using 1 2 by simp
  then show "i = (i div 588 * 21 + (i mod 588) div 28) * 28 + i mod 28"
    unfolding 3 a_def b_def r_def .
qed

lemma join_index:
  fixes l v t :: nat
  assumes "v < 21" "t < 28"
  shows "((l * 21 + v) * 28 + t) div 588 = l"
    and "(((l * 21 + v) * 28 + t) mod 588) div 28 = v"
    and "((l * 21 + v) * 28 + t) mod 28 = t"
proof -
  define r where "r = v * 28 + t"
  have r: "r < 588" unfolding r_def using assms by linarith
  have e: "(l * 21 + v) * 28 + t = r + l * 588" unfolding r_def by simp
  show "((l * 21 + v) * 28 + t) div 588 = l" unfolding e using r by simp
  have m: "((l * 21 + v) * 28 + t) mod 588 = r" unfolding e using r by simp
  show "(((l * 21 + v) * 28 + t) mod 588) div 28 = v" unfolding m r_def using assms by simp
  have "(l * 21 + v) * 28 + t = t + 28 * (l * 21 + v)" by linarith
  then have "((l * 21 + v) * 28 + t) mod 28 = (t + 28 * (l * 21 + v)) mod 28" by (rule arg_cong)
  also have "\<dots> = t mod 28" by (rule mod_mult_self2)
  also have "\<dots> = t" using assms(2) by (rule mod_less)
  finally show "((l * 21 + v) * 28 + t) mod 28 = t" .
qed

lemma decompose_char_syllable:
  assumes "is_syllable c"
  shows "\<exists>l v t. l < 19 \<and> v < 21 \<and> t < 28 \<and> c = SBase + ((l * 21 + v) * 28 + t) \<and>
           decompose_char c = [LBase + l, VBase + v] @ (if t = 0 then [] else [TBase + t])"
proof -
  define i where "i = c - SBase"
  have c: "c = SBase + i" and i: "i < 11172"
    using assms unfolding i_def is_syllable_def hangul_consts by linarith+
  note s = split_index[OF i]
  have d: "decompose_char c = [LBase + i div 588, VBase + (i mod 588) div 28]
          @ (if i mod 28 = 0 then [] else [TBase + i mod 28])"
    using assms by (simp add: decompose_char_def Let_def i_def NCount_def TCount_def)
  have c': "c = SBase + ((i div 588 * 21 + i mod 588 div 28) * 28 + i mod 28)"
    by (subst s(4)[symmetric]) (rule c)
  show ?thesis
    by (rule exI[of _ "i div 588"], rule exI[of _ "i mod 588 div 28"], rule exI[of _ "i mod 28"])
       (intro conjI s(1) s(2) s(3) c' d)
qed

lemma decompose_char_join:
  assumes "l < 19" "v < 21" "t < 28"
  shows "decompose_char (SBase + ((l * 21 + v) * 28 + t))
           = [LBase + l, VBase + v] @ (if t = 0 then [] else [TBase + t])"
proof -
  let ?i = "(l * 21 + v) * 28 + t"
  have "l * 21 + v \<le> 398" using assms by linarith
  then have "(l * 21 + v) * 28 \<le> 398 * 28" by (rule mult_le_mono1)
  then have "?i < 11172" using assms by simp
  then have "is_syllable (SBase + ?i)" by (simp add: is_syllable_def SCount_def)
  moreover have "SBase + ?i - SBase = ?i" by simp
  ultimately show ?thesis
    unfolding decompose_char_def Let_def NCount_def TCount_def
    using join_index[OF assms(2,3), of l] by simp
qed

lemma jamo_not_syllable: "is_L c \<or> is_V c \<or> is_T c \<Longrightarrow> \<not> is_syllable c"
  unfolding hangul_classes hangul_consts by linarith

lemma decompose_char_LV:
  assumes "is_L a" "is_V b"
  shows "decompose_char (SBase + ((a - LBase) * VCount + (b - VBase)) * TCount) = [a, b]"
proof -
  have l: "a - LBase < 19" and a: "LBase + (a - LBase) = a"
    using assms(1) unfolding is_L_def hangul_consts by linarith+
  have v: "b - VBase < 21" and b: "VBase + (b - VBase) = b"
    using assms(2) unfolding is_V_def hangul_consts by linarith+
  have "decompose_char (SBase + (((a - LBase) * 21 + (b - VBase)) * 28 + 0)) = [a, b]"
    using decompose_char_join[OF l v, of 0] a b by simp
  then show ?thesis by (simp add: VCount_def TCount_def)
qed

lemma decompose_char_LVT:
  assumes "is_LV a" "is_T b"
  shows "decompose_char (a + (b - TBase)) = decompose_char a @ [b]"
proof -
  from assms(1) have syl: "is_syllable a" and m: "(a - SBase) mod 28 = 0"
    by (simp_all add: is_LV_def TCount_def)
  from decompose_char_syllable[OF syl] obtain l v t where
    l: "l < 19" and v: "v < 21" and t: "t < 28"
    and a: "a = SBase + ((l * 21 + v) * 28 + t)"
    and d: "decompose_char a = [LBase + l, VBase + v] @ (if t = 0 then [] else [TBase + t])"
    by blast
  have "(a - SBase) mod 28 = t" unfolding a using join_index(3)[OF v t, of l] by simp
  with m have t0: "t = 0" by simp
  have ti: "b - TBase < 28" "b - TBase \<noteq> 0" and b: "TBase + (b - TBase) = b"
    using assms(2) unfolding is_T_def hangul_consts by linarith+
  have "a + (b - TBase) = SBase + ((l * 21 + v) * 28 + (b - TBase))"
    unfolding a t0 by simp
  then have "decompose_char (a + (b - TBase)) = [LBase + l, VBase + v] @ [TBase + (b - TBase)]"
    using decompose_char_join[OF l v ti(1)] ti(2) by simp
  then show ?thesis unfolding d t0 b by simp
qed

lemma decompose_compose: "decompose (compose y) = decompose y"
proof (induction y rule: compose.induct)
  case (1 a b rest)
  show ?case
  proof (cases "is_L a \<and> is_V b")
    case True
    then have "decompose_char a = [a]" "decompose_char b = [b]"
      using jamo_not_syllable decompose_char_plain by blast+
    with True 1(1) decompose_char_LV[of a b] show ?thesis
      by (simp add: decompose_def)
  next
    case False
    show ?thesis
    proof (cases "is_LV a \<and> is_T b")
      case True
      then have "decompose_char b = [b]"
        using jamo_not_syllable decompose_char_plain by blast
      with True False 1(2) decompose_char_LVT[of a b] show ?thesis
        by (auto simp add: decompose_def)
    next
      case F2: False
      with False 1(3) show ?thesis by (auto simp add: decompose_def)
    qed
  qed
qed (simp_all)

lemma concat_map_singletons: "\<forall>x \<in> set xs. f x = [x] \<Longrightarrow> concat (map f xs) = xs"
  by (induction xs) simp_all

lemma decompose_char_out: 
  assumes "x \<in> set (decompose_char c)" shows "decompose_char x = [x]"
proof (cases "is_syllable c")
  case False
  with assms show ?thesis by (simp add: decompose_char_plain)
next
  case True
  from decompose_char_syllable[OF True] obtain l v t where
    l: "l < 19" and v: "v < 21" and t: "t < 28"
    and d: "decompose_char c = [LBase + l, VBase + v] @ (if t = 0 then [] else [TBase + t])"
    by blast
  from assms d have "x = LBase + l \<or> x = VBase + v \<or> x = TBase + t"
    by (auto split: if_splits)
  with l v t have "x < SBase" unfolding hangul_consts by linarith
  then show ?thesis by (simp add: decompose_char_plain is_syllable_def)
qed

lemma decompose_idem: "decompose (decompose s) = decompose s"
proof (induction s)
  case Nil show ?case by (simp add: decompose_def)
next
  case (Cons c s)
  have "concat (map decompose_char (decompose_char c)) = decompose_char c"
    by (rule concat_map_singletons) (simp add: decompose_char_out)
  with Cons show ?case by (simp add: decompose_def)
qed

lemma hangul_normalize_laws: "hangul_normalize f (hangul_normalize g s) = hangul_normalize f s"
  by (cases f; cases g) (simp_all add: decompose_compose decompose_idem)

subsection \<open>Dictionaries and the loaders\<close>

lemma dict_keys_dict_set:
  "dict_keys (dict_set d k v) = (if k \<in> set (dict_keys d) then dict_keys d else dict_keys d @ [k])"
  by (induction d k v rule: dict_set.induct) (auto simp: dict_keys_def)

lemma map_of_dict_set: "map_of (dict_set d k v) = (map_of d)(k \<mapsto> v)"
  by (induction d k v rule: dict_set.induct) (auto simp: fun_eq_iff)

lemma dict_keys_SCHOOL_EC_INFO: "dict_keys SCHOOL_EC_INFO = [songdo, haneul, ara, dongsan]"
  by (simp add: dict_keys_def SCHOOL_EC_INFO_def)

lemma dict_keys_SCHOOL_COLOR: "dict_keys SCHOOL_COLOR = dict_keys SCHOOL_EC_INFO"
  by (simp add: dict_keys_def SCHOOL_EC_INFO_def SCHOOL_COLOR_def)

lemma distinct_sites: "distinct (dict_keys SCHOOL_EC_INFO)"
  by (simp add: dict_keys_SCHOOL_EC_INFO songdo_def haneul_def ara_def dongsan_def)

lemma getitem_Inr_iff: "(\<exists>v. getitem d k = Inr v) \<longleftrightarrow> k \<in> set (dict_keys d)"
  by (auto simp: getitem_def dict_keys_def map_of_eq_None_iff split: option.splits)
     (metis map_of_eq_None_iff not_Some_eq image_set)

lemma getitem_missing: "k \<notin> set (dict_keys d) \<Longrightarrow> getitem d k = Inl (KeyError k)"
  by (simp add: getitem_def dict_keys_def map_of_eq_None_iff[THEN iffD2])

lemma load_env_loop_events:
  "u \<in> set (fst (load_env_loop N dir schools acc)) \<Longrightarrow> \<exists>m. u = St_error m"
  by (induction schools arbitrary: acc) (auto simp: Let_def split: option.splits)

lemma load_env_loop_keys:
  "load_env_loop N dir schools acc = (ev, Inr (Some env)) \<Longrightarrow>
   distinct (dict_keys acc @ schools) \<Longrightarrow> dict_keys env = dict_keys acc @ schools \<and> ev = []"
proof (induction schools arbitrary: acc)
  case Nil then show ?case by simp
next
  case (Cons s rest)
  from Cons.prems(1) obtain p df t where
    p: "find_file_by_name N dir (s @ env_suffix) = Some p" and df: "read_csv p = Some df"
    and rec: "load_env_loop N dir rest (dict_set acc s t) = (ev, Inr (Some env))"
    by (auto simp: Let_def split: option.splits)
  have k: "dict_keys (dict_set acc s t) = dict_keys acc @ [s]"
    using Cons.prems(2) by (simp add: dict_keys_dict_set)
  from Cons.IH[OF rec] k Cons.prems(2) show ?case by simp
qed

lemma load_env_loop_unresolved:
  "s \<in> set schools \<Longrightarrow> find_file_by_name N dir (s @ env_suffix) = None \<Longrightarrow>
   snd (load_env_loop N dir schools acc) \<noteq> Inr (Some m)"
  by (induction schools arbitrary: acc) (auto simp: Let_def split: option.splits)

lemma load_env_loop_first_missing:
  "find (\<lambda>s. find_file_by_name N dir (s @ env_suffix) = None) schools = Some k \<Longrightarrow>
   (\<forall>s \<in> set schools. \<forall>p. find_file_by_name N dir (s @ env_suffix) = Some p \<longrightarrow> read_csv p \<noteq> None) \<Longrightarrow>
   load_env_loop N dir schools acc = ([St_error (env_missing_msg @ k @ env_suffix)], Inr None)"
  by (induction schools arbitrary: acc) (auto simp: Let_def split: option.splits if_splits)

lemma find_unresolved_Some:
  "s \<in> set schools \<Longrightarrow> P s \<Longrightarrow> \<exists>k. find P schools = Some k \<and> k \<in> set schools \<and> P k"
  by (induction schools) auto

lemma load_growth_data_events:
  "u \<in> set (fst (load_growth_data dir)) \<Longrightarrow> \<exists>m. u = St_error m"
  by (auto simp: load_growth_data_def split: option.splits)

lemma run_app_not_loaded:
  assumes "\<forall>m. snd (load_environment_data N dir) \<noteq> Inr (Some m)"
  shows "(\<forall>u \<in> set (fst (run_app N F dir sel)). \<exists>m. u = St_error m) \<and> snd (run_app N F dir sel) \<noteq> Completed"
proof -
  obtain ev1 r1 where l1: "load_environment_data N dir = (ev1, r1)" by (cases "load_environment_data N dir")
  obtain ev2 r2 where l2: "load_growth_data dir = (ev2, r2)" by (cases "load_growth_data dir")
  have e1: "\<forall>u \<in> set ev1. \<exists>m. u = St_error m"
    using load_env_loop_events[of _ N dir "dict_keys SCHOOL_EC_INFO" "[]"] l1
    by (simp add: load_environment_data_def)
  have e2: "\<forall>u \<in> set ev2. \<exists>m. u = St_error m"
    using load_growth_data_events[of _ dir] l2 by simp
  from assms l1 have r1: "r1 \<noteq> Inr (Some m)" for m by simp
  show ?thesis
    using e1 e2 r1 unfolding run_app_def l1 l2
    by (auto split: sum.splits option.splits prod.splits)
qed

lemma load_growth_loop_keys:
  "set (dict_keys (load_growth_loop sheets acc)) = set (dict_keys acc) \<union> fst ` set sheets"
  by (induction sheets acc rule: load_growth_loop.induct) (auto simp: dict_keys_dict_set)

lemma distinct_dict_set: "distinct (dict_keys d) \<Longrightarrow> distinct (dict_keys (dict_set d k v))"
  by (simp add: dict_keys_dict_set)

lemma load_growth_loop_distinct:
  "distinct (dict_keys acc) \<Longrightarrow> distinct (dict_keys (load_growth_loop sheets acc))"
  by (induction sheets acc rule: load_growth_loop.induct) (auto simp: distinct_dict_set)

lemma load_growth_loop_map_of:
  "map_of (load_growth_loop sheets acc) k =
     (case map_of (rev sheets) k of
        Some df \<Rightarrow> Some (map (\<lambda>r. r\<lparr>g_school := k, g_ec := ec_info_get k\<rparr>) df)
      | None \<Rightarrow> map_of acc k)"
proof (induction sheets acc rule: load_growth_loop.induct)
  case (1 acc) show ?case by simp
next
  case (2 sheet df rest acc)
  show ?case
    by (simp add: 2 map_of_dict_set map_add_def split: option.splits)
qed

lemma ec_info_get_unknown: "sheet \<notin> set (dict_keys SCHOOL_EC_INFO) \<Longrightarrow> ec_info_get sheet = None"
  by (simp add: ec_info_get_def dict_keys_def map_of_eq_None_iff)

subsection \<open>Key lookups of the overview\<close>

lemma getitem_present: "k \<in> set (dict_keys d) \<Longrightarrow> \<exists>v. getitem d k = Inr v"
  by (rule getitem_Inr_iff[THEN iffD2])

lemma overview_loop_unknown:
  "k \<in> set (dict_keys growth) \<Longrightarrow> k \<notin> set (dict_keys SCHOOL_EC_INFO) \<Longrightarrow>
   \<exists>k'. k' \<in> set (dict_keys growth) \<and> k' \<notin> set (dict_keys SCHOOL_EC_INFO) \<and>
        (\<forall>rows tot. overview_loop growth rows tot = Inl (KeyError k'))"
proof (induction growth)
  case Nil then show ?case by (simp add: dict_keys_def)
next
  case (Cons item rest)
  obtain sch df where item: "item = (sch, df)" by (cases item)
  show ?case
  proof (cases "sch \<in> set (dict_keys SCHOOL_EC_INFO)")
    case False
    then have "overview_loop (item # rest) rows tot = Inl (KeyError sch)" for rows tot
      unfolding item by (simp add: getitem_missing)
    moreover have "sch \<in> set (dict_keys (item # rest))" by (simp add: item dict_keys_def)
    ultimately show ?thesis using False by blast
  next
    case True
    from getitem_present[OF True] obtain t where t: "getitem SCHOOL_EC_INFO sch = Inr t" ..
    from True have "sch \<in> set (dict_keys SCHOOL_COLOR)" by (simp only: dict_keys_SCHOOL_COLOR)
    from getitem_present[OF this] obtain c where c: "getitem SCHOOL_COLOR sch = Inr c" ..
    from True Cons.prems have "k \<in> set (dict_keys rest)" unfolding item by (auto simp: dict_keys_def)
    from Cons.IH[OF this Cons.prems(2)] obtain k' where
      k': "k' \<in> set (dict_keys rest)" "k' \<notin> set (dict_keys SCHOOL_EC_INFO)"
      and ov: "\<And>rows tot. overview_loop rest rows tot = Inl (KeyError k')"
      by blast
    have "overview_loop (item # rest) rows tot = Inl (KeyError k')" for rows tot
      unfolding item by (simp add: t c ov)
    moreover have "k' \<in> set (dict_keys (item # rest))" using k'(1) by (simp add: dict_keys_def)
    ultimately show ?thesis using k'(2) by blast
  qed
qed

subsection \<open>Evaluation of the examples: environment loader\<close>

lemmas hangul_eval = decompose_def decompose_char_def hangul_classes hangul_consts
lemmas names_eval = songdo_def haneul_def ara_def dongsan_def env_suffix_def sheet1_def book_name_def
lemmas example_eval = env_file_def env_file_without_time_def unreadable_file_def with_time_def
  without_time_def workbook_file_def reading_def plant_def site_sheets_def
  nfd_env_files_def dir_nfd_def dir_missing_def dir_extra_def dir_unreadable_def dir_no_time_def
  env_nfd_def env_no_time_def growth_nfd_def growth_extra_def

lemma load_environment_data_dir_nfd:
  "load_environment_data hangul_normalize dir_nfd = ([], Inr (Some env_nfd))"
  by (simp add: load_environment_data_def dict_keys_SCHOOL_EC_INFO example_eval names_eval hangul_eval)

subsection \<open>File resolution\<close>

lemma find_file_by_name_cong:
  assumes "N NFC t' = N NFC t" "N NFD t' = N NFD t"
  shows "find_file_by_name N dir t' = find_file_by_name N dir t"
  by (induction dir) (simp_all add: assms)

lemma find_file_by_name_rename:
  assumes "\<And>p. is_file (r p) = is_file p"
    and "\<And>p. N NFC (name (r p)) = N NFC (name p)"
    and "\<And>p. N NFD (name (r p)) = N NFD (name p)"
  shows "find_file_by_name N (map r dir) t = map_option r (find_file_by_name N dir t)"
  by (induction dir) (simp_all add: assms)

lemma find_file_by_name_None_iff:
  "find_file_by_name N dir t = None \<longleftrightarrow>
   (\<forall>p \<in> set dir. is_file p \<longrightarrow> N NFC (name p) \<noteq> N NFC t \<and> N NFD (name p) \<noteq> N NFD t)"
  by (induction dir) auto

subsection \<open>First maximum\<close>

lemma first_max_at_head:
  assumes "\<forall>w. Some w \<in> set xs \<longrightarrow> w \<le> v"
  shows "first_max_at (Some v # xs) 0 v"
  unfolding first_max_at_def
proof (intro conjI allI impI)
  fix j w assume j: "j < length (Some v # xs)" and w: "(Some v # xs) ! j = Some w"
  show "w \<le> v"
  proof (cases j)
    case 0 with w show ?thesis by simp
  next
    case (Suc j')
    with j w have "Some w \<in> set xs" by (metis length_Cons not_less_eq nth_Cons_Suc nth_mem)
    with assms show ?thesis by simp
  qed
qed simp_all

lemma first_max_at_shift:
  assumes "first_max_at xs k v" "\<forall>w. h = Some w \<longrightarrow> w < v"
  shows "first_max_at (h # xs) (Suc k) v"
  unfolding first_max_at_def
proof (intro conjI allI impI)
  from assms(1) have k: "k < length xs" "xs ! k = Some v"
    and m: "\<And>j w. j < length xs \<Longrightarrow> xs ! j = Some w \<Longrightarrow> w \<le> v \<and> (j < k \<longrightarrow> w < v)"
    by (simp_all add: first_max_at_def)
  show "Suc k < length (h # xs)" "(h # xs) ! Suc k = Some v" using k by simp_all
  fix j w assume j: "j < length (h # xs)" and w: "(h # xs) ! j = Some w"
  show "w \<le> v"
  proof (cases j)
    case 0 with w assms(2) show ?thesis by simp
  next
    case (Suc j') with j w m[of j' w] show ?thesis by simp
  qed
  assume "j < Suc k"
  then show "w < v"
  proof (cases j)
    case 0 with w assms(2) show ?thesis by simp
  next
    case (Suc j') with j w m[of j' w] \<open>j < Suc k\<close> show ?thesis by simp
  qed
qed

lemma idxmax_from_spec:
  assumes "idxmax_from i best xs = Some (k, v)"
  shows "(best = Some (k, v) \<and> (\<forall>w. Some w \<in> set xs \<longrightarrow> w \<le> v)) \<or>
         (i \<le> k \<and> first_max_at xs (k - i) v \<and> (\<forall>j y. best = Some (j, y) \<longrightarrow> y < v))"
  using assms
proof (induction i best xs rule: idxmax_from.induct)
  case (1 i best)
  then show ?case by simp
next
  case (2 i best xs)
  from 2(2) have r: "idxmax_from (Suc i) best xs = Some (k, v)" by simp
  from 2(1)[OF r] show ?case
  proof
    assume "best = Some (k, v) \<and> (\<forall>w. Some w \<in> set xs \<longrightarrow> w \<le> v)"
    then show ?thesis by simp
  next
    assume a: "Suc i \<le> k \<and> first_max_at xs (k - Suc i) v \<and> (\<forall>j y. best = Some (j, y) \<longrightarrow> y < v)"
    then have ki: "k - i = Suc (k - Suc i)" by linarith
    from a have "first_max_at (None # xs) (k - i) v"
      unfolding ki by (intro first_max_at_shift) simp_all
    with a show ?thesis by simp
  qed
next
  case (3 i best x xs)
  have new: ?case
    if r: "idxmax_from (Suc i) (Some (i, x)) xs = Some (k, v)"
      and b: "\<forall>j y. best = Some (j, y) \<longrightarrow> y < x"
      and ih: "(Some (i, x) = Some (k, v) \<and> (\<forall>w. Some w \<in> set xs \<longrightarrow> w \<le> v)) \<or>
         (Suc i \<le> k \<and> first_max_at xs (k - Suc i) v \<and> (\<forall>j y. Some (i, x) = Some (j, y) \<longrightarrow> y < v))"
  proof -
    from ih show ?thesis
    proof
      assume a: "Some (i, x) = Some (k, v) \<and> (\<forall>w. Some w \<in> set xs \<longrightarrow> w \<le> v)"
      then have "first_max_at (Some x # xs) (k - i) v"
        using first_max_at_head[of xs v] by simp
      with a b show ?thesis by auto
    next
      assume a: "Suc i \<le> k \<and> first_max_at xs (k - Suc i) v \<and> (\<forall>j y. Some (i, x) = Some (j, y) \<longrightarrow> y < v)"
      then have ki: "k - i = Suc (k - Suc i)" by linarith
      from a have "first_max_at (Some x # xs) (k - i) v"
        unfolding ki by (intro first_max_at_shift) simp_all
      moreover from a b have "\<forall>j y. best = Some (j, y) \<longrightarrow> y < v" by fastforce
      ultimately show ?thesis using a by simp
    qed
  qed
  show ?case
  proof (cases best)
    case None
    with 3(4) have r: "idxmax_from (Suc i) (Some (i, x)) xs = Some (k, v)" by simp
    from new[OF r _ 3(1)[OF None r]] None show ?thesis by simp
  next
    case (Some jy)
    obtain j y where jy: "jy = (j, y)" by (cases jy)
    show ?thesis
    proof (cases "y < x")
      case True
      with 3(4) Some jy have r: "idxmax_from (Suc i) (Some (i, x)) xs = Some (k, v)" by simp
      from new[OF r _ 3(2)[OF Some jy[symmetric] True r]] Some jy True show ?thesis by simp
    next
      case False
      with 3(4) Some jy have r: "idxmax_from (Suc i) best xs = Some (k, v)" by simp
      from 3(3)[OF Some jy[symmetric] False r] show ?thesis
      proof
        assume a: "best = Some (k, v) \<and> (\<forall>w. Some w \<in> set xs \<longrightarrow> w \<le> v)"
        with Some jy False show ?thesis by auto
      next
        assume a: "Suc i \<le> k \<and> first_max_at xs (k - Suc i) v \<and> (\<forall>j y. best = Some (j, y) \<longrightarrow> y < v)"
        then have ki: "k - i = Suc (k - Suc i)" by linarith
        from a Some jy False have "x < v" by auto
        with a have "first_max_at (Some x # xs) (k - i) v"
          unfolding ki by (intro first_max_at_shift) simp_all
        with a show ?thesis by simp
      qed
    qed
  qed
qed

lemma idxmax_spec: "idxmax xs = Inr k \<Longrightarrow> \<exists>v. first_max_at xs k v"
  using idxmax_from_spec[of 0 None xs k]
  by (auto simp: idxmax_def split: option.splits)

subsection \<open>Grouping by EC level\<close>

lemma present_set: "set (present xs) = {v. Some v \<in> set xs}"
  by (induction xs) (auto simp: present_def split: option.splits)

lemma group_keys_set: "set (group_keys df) = {k. \<exists>r \<in> set df. g_ec r = Some k}"
  by (auto simp: group_keys_def present_set) (metis imageI)


lemma present_filter_nonnull:
  "present (map g_ec (filter (\<lambda>r. g_ec r \<noteq> None) df)) = present (map g_ec df)"
  by (induction df) (auto simp: present_def)

lemma groupby_ec_drops_null:
  "groupby_ec (filter (\<lambda>r. g_ec r \<noteq> None) df) = groupby_ec df"
proof -
  have "filter (\<lambda>r. g_ec r = Some k) (filter (\<lambda>r. g_ec r \<noteq> None) df)
          = filter (\<lambda>r. g_ec r = Some k) df" for k
    by (induction df) auto
  then show ?thesis
    unfolding groupby_ec_def group_keys_def present_filter_nonnull by (simp only:)
qed

lemma groupby_mean_keys: "map fst (groupby_mean F col df) = group_keys df"
  by (simp add: groupby_mean_def groupby_ec_def comp_def)

lemma groupby_mean_nth:
  "j < length (group_keys df) \<Longrightarrow>
   groupby_mean F col df ! j =
     (group_keys df ! j,
      group_mean F (map col (filter (\<lambda>r. g_ec r = Some (group_keys df ! j)) df)))"
  by (simp add: groupby_mean_def groupby_ec_def)

lemma max_ec_spec:
  assumes "max_ec grp = Inr mx"
  shows "\<exists>i v. first_max_at (map snd grp) i v \<and> i < length grp \<and> fst (grp ! i) = mx"
proof -
  from assms obtain i where i: "idxmax (map snd grp) = Inr i" and l: "loc grp i = Inr (grp ! i)"
    and m: "mx = fst (grp ! i)" and il: "i < length grp"
    by (auto simp: max_ec_def loc_def split: sum.splits if_splits)
  from idxmax_spec[OF i] il m show ?thesis by blast
qed



subsection \<open>What a run shows\<close>

lemma and_then_fst: "set (fst (and_then a b)) \<subseteq> set (fst a) \<union> set (fst b)"
  by (cases a; cases "snd a") auto

lemma time_series_loop_events:
  "u \<in> set (fst (time_series_loop env ss)) \<Longrightarrow> \<exists>s d t. u = Time_series_chart s d t"
proof (induction ss)
  case Nil then show ?case by simp
next
  case (Cons s ss)
  then show ?case
    by (cases "time_series_loop env ss") (auto split: sum.splits if_splits)
qed

lemma tab2_events:
  assumes "u \<in> set (fst (tab2 env sel))"
  shows "(\<exists>a. u = Env_bar_chart a) \<or> (\<exists>s d t. u = Time_series_chart s d t) \<or>
         (\<exists>d. u = Env_table d) \<or> (\<exists>d. u = Env_download d)"
proof (cases "avg_loop env []")
  case (Inl e) with assms show ?thesis by (simp add: tab2_def)
next
  case (Inr rows)
  let ?ts = "time_series_loop env (schools_to_plot env sel)"
  from assms Inr have "u = Env_bar_chart rows \<or> u \<in> set (fst (and_then ?ts (env_export env)))"
    by (simp add: tab2_def)
  then have "u = Env_bar_chart rows \<or> u \<in> set (fst ?ts) \<or> u \<in> set (fst (env_export env))"
    using and_then_fst[of ?ts "env_export env"] by blast
  moreover have "(\<exists>d. u = Env_table d) \<or> (\<exists>d. u = Env_download d)" if "u \<in> set (fst (env_export env))"
    using that by (auto simp: env_export_def split: sum.splits)
  ultimately show ?thesis using time_series_loop_events[of u env] by blast
qed

lemma tab3_events_not_optimal: "Metric_optimal_ec v \<notin> set (fst (tab3 F growth))"
  by (auto simp: tab3_def ec_cards_def split: sum.splits)

lemma tab1_events_optimal: "Metric_optimal_ec v \<in> set (fst (tab1 env growth)) \<Longrightarrow> v = optimal_ec"
  by (auto simp: tab1_def split: sum.splits prod.splits)

lemma render_events:
  "set (fst (render F env growth sel)) \<subseteq>
     set (fst (tab1 env growth)) \<union> set (fst (tab2 env sel)) \<union> set (fst (tab3 F growth))"
  using and_then_fst[of "tab1 env growth" "and_then (tab2 env sel) (tab3 F growth)"]
        and_then_fst[of "tab2 env sel" "tab3 F growth"]
  unfolding render_def by blast

lemma run_app_events:
  assumes "u \<in> set (fst (run_app N F dir sel))"
  shows "(\<exists>m. u = St_error m) \<or>
         (\<exists>env growth. u \<in> set (fst (render F env growth sel)))"
proof -
  obtain ev1 r1 where l1: "load_environment_data N dir = (ev1, r1)" by (cases "load_environment_data N dir")
  obtain ev2 r2 where l2: "load_growth_data dir = (ev2, r2)" by (cases "load_growth_data dir")
  have e1: "\<forall>u \<in> set ev1. \<exists>m. u = St_error m"
    using load_env_loop_events[of _ N dir "dict_keys SCHOOL_EC_INFO" "[]"] l1
    by (simp add: load_environment_data_def)
  have e2: "\<forall>u \<in> set ev2. \<exists>m. u = St_error m"
    using load_growth_data_events[of _ dir] l2 by simp
  from assms have "u \<in> set ev1 \<or> u \<in> set ev2 \<or> (\<exists>env growth. u \<in> set (fst (render F env growth sel)))"
    unfolding run_app_def l1 l2
    by (auto split: sum.splits option.splits prod.splits) (metis fst_conv)+
  with e1 e2 show ?thesis by blast
qed

subsection \<open>Pooled and per-site means\<close>

lemma present_append: "present (xs @ ys) = present xs @ present ys"
  by (simp add: present_def)

lemma present_concat_sum:
  "sum_list (present (map col (concat (map readings dfs)))) = sum_list (map (site_sum col) dfs)"
  by (induction dfs) (simp_all add: present_append site_sum_def present_def)

lemma present_concat_count:
  "length (present (map col (concat (map readings dfs)))) = sum_list (map (site_count col) dfs)"
  by (induction dfs) (simp_all add: present_append site_count_def present_def)

lemma mean_concat:
  "mean (map col (concat (map readings dfs))) =
     (let n = sum_list (map (site_count col) dfs)
      in if n = 0 then None else Some (sum_list (map (site_sum col) dfs) / of_nat n))"
proof -
  have "length (present (map col (concat (map readings dfs)))) = 0 \<longleftrightarrow>
        sum_list (map (site_count col) dfs) = 0"
    by (simp only: present_concat_count)
  then have "present (map col (concat (map readings dfs))) = [] \<longleftrightarrow>
        sum_list (map (site_count col) dfs) = 0"
    by (simp only: length_0_conv)
  then show ?thesis
    unfolding mean_def Let_def present_concat_sum present_concat_count by simp
qed

lemma pooled_mean_weighted:
  assumes "env_data \<noteq> []"
  shows "pooled_mean col env_data = Inr (row_weighted_mean col env_data)"
proof -
  from assms have "map readings (dict_values env_data) \<noteq> []"
    by (simp add: dict_values_def)
  then show ?thesis
    by (simp add: pooled_mean_def concat_frames_def mean_concat row_weighted_mean_def)
qed

lemma mean_site: "mean (map col (readings df)) = (if site_count col df = 0 then None else Some (site_sum col df / of_nat (site_count col df)))"
  by (simp add: mean_def Let_def site_sum_def site_count_def)

lemma equal_counts_means:
  assumes "0 < n" "\<forall>df \<in> set dfs. site_count col df = n"
  shows "present (map (\<lambda>df. mean (map col (readings df))) dfs) = map (\<lambda>df. site_sum col df / of_nat n) dfs"
  using assms(2)
  by (induction dfs) (use assms(1) in \<open>simp_all add: present_def mean_site\<close>)

lemma sum_list_divide: "sum_list (map (\<lambda>x. f x / (c::rat)) xs) = sum_list (map f xs) / c"
  by (induction xs) (simp_all add: add_divide_distrib)

lemma sum_list_const: "\<forall>x \<in> set xs. f x = (n::nat) \<Longrightarrow> sum_list (map f xs) = length xs * n"
  by (induction xs) simp_all

lemma equal_counts_coincide:
  assumes "0 < n" "env_data \<noteq> []" "\<forall>df \<in> set (dict_values env_data). site_count col df = n"
  shows "mean_of_site_means col env_data = row_weighted_mean col env_data"
proof -
  let ?dfs = "dict_values env_data"
  have ne: "?dfs \<noteq> []" using assms(2) by (simp add: dict_values_def)
  have c: "sum_list (map (site_count col) ?dfs) = length ?dfs * n"
    using assms(3) by (rule sum_list_const)
  have pos: "length ?dfs * n \<noteq> 0" using ne assms(1) by simp
  note p = equal_counts_means[OF assms(1,3)]
  have "mean (map (\<lambda>df. mean (map col (readings df))) ?dfs)
          = Some (sum_list (map (site_sum col) ?dfs) / of_nat n / of_nat (length ?dfs))"
    by (subst mean_def) (simp add: Let_def p ne sum_list_divide)
  then have "mean_of_site_means col env_data
          = Some (sum_list (map (site_sum col) ?dfs) / of_nat n / of_nat (length ?dfs))"
    by (simp only: mean_of_site_means_def)
  also have "\<dots> = row_weighted_mean col env_data"
    unfolding row_weighted_mean_def Let_def c using pos by (simp add: mult.commute)
  finally show ?thesis .
qed

lemmas mean_eval = pooled_mean_def avg_temp_def avg_hum_def concat_frames_def dict_values_def mean_def present_def
   mean_of_site_means_def reading_def with_time_def without_time_def Let_def row_weighted_mean_def
   site_sum_def site_count_def

subsection \<open>The selection and the downloads\<close>

lemma and_then_downloads:
  "filter is_download (fst (and_then a b)) =
     (case snd a of None \<Rightarrow> filter is_download (fst a) @ filter is_download (fst b)
      | Some e \<Rightarrow> filter is_download (fst a))"
  by (cases a; cases "snd a") auto

lemma and_then_snd: "snd (and_then a b) = (case snd a of None \<Rightarrow> snd b | Some e \<Rightarrow> Some e)"
  by (cases a; cases "snd a") auto

lemma time_series_loop_no_download: "filter is_download (fst (time_series_loop env ss)) = []"
proof -
  have "\<not> is_download u" if "u \<in> set (fst (time_series_loop env ss))" for u
    using time_series_loop_events[OF that] by auto
  then show ?thesis by (simp add: filter_empty_conv)
qed

lemma getitem_in_values: "getitem d k = Inr v \<Longrightarrow> v \<in> set (dict_values d)"
  by (auto simp: getitem_def dict_values_def split: option.splits dest!: map_of_SomeD)
     (metis image_eqI snd_conv)

lemma time_series_loop_completes:
  "\<forall>s \<in> set ss. s \<in> set (dict_keys env) \<and> s \<in> set (dict_keys SCHOOL_EC_INFO) \<Longrightarrow>
   \<forall>df \<in> set (dict_values env). has_time df \<Longrightarrow>
   snd (time_series_loop env ss) = None"
proof (induction ss)
  case Nil show ?case by simp
next
  case (Cons s ss)
  from Cons.prems getitem_present[of s env] obtain df where df: "getitem env s = Inr df" by auto
  from getitem_in_values[OF df] Cons.prems(2) have h: "has_time df" by blast
  from Cons.prems getitem_present[of s SCHOOL_EC_INFO] obtain t where t: "getitem SCHOOL_EC_INFO s = Inr t" by auto
  from Cons show ?case by (simp add: df t h and_then_snd)
qed

lemma schools_to_plot_known:
  assumes "dict_keys env = dict_keys SCHOOL_EC_INFO" "sel \<in> set selectbox_options"
  shows "\<forall>s \<in> set (schools_to_plot env sel). s \<in> set (dict_keys env) \<and> s \<in> set (dict_keys SCHOOL_EC_INFO)"
  using assms by (auto simp: schools_to_plot_def selectbox_options_def)

lemma tab2_selection_independent:
  assumes "dict_keys env = dict_keys SCHOOL_EC_INFO" "sel \<in> set selectbox_options"
    and "\<forall>df \<in> set (dict_values env). has_time df"
  shows "filter is_download (fst (tab2 env sel)) =
           (case avg_loop env [] of Inl e \<Rightarrow> [] | Inr r \<Rightarrow> filter is_download (fst (env_export env)))"
    and "snd (tab2 env sel) =
           (case avg_loop env [] of Inl e \<Rightarrow> Some e | Inr r \<Rightarrow> snd (env_export env))"
  using time_series_loop_completes[OF schools_to_plot_known[OF assms(1,2)] assms(3)]
  by (auto simp: tab2_def and_then_downloads and_then_snd time_series_loop_no_download
      split: sum.splits)

lemma tab1_no_download: "filter is_download (fst (tab1 env growth)) = []"
  by (auto simp: tab1_def split: sum.splits prod.splits)

lemma render_selection_independent:
  assumes "dict_keys env = dict_keys SCHOOL_EC_INFO"
    "sel1 \<in> set selectbox_options" "sel2 \<in> set selectbox_options"
    "\<forall>df \<in> set (dict_values env). has_time df"
  shows "filter is_download (fst (render F env growth sel1)) = filter is_download (fst (render F env growth sel2))"
    and "snd (render F env growth sel1) = snd (render F env growth sel2)"
  unfolding render_def and_then_downloads and_then_snd
    tab2_selection_independent[OF assms(1,2,4)] tab2_selection_independent[OF assms(1,3,4)]
  by simp_all

lemma tab2_completed_downloads:
  assumes "snd (tab2 env sel) = None"
  shows "filter is_download (fst (tab2 env sel)) = [Env_download (concat (map readings (dict_values env)))]"
  using assms
  by (auto simp: tab2_def and_then_downloads and_then_snd time_series_loop_no_download
      env_export_def concat_frames_def split: sum.splits option.splits if_splits)

lemma tab2_raised_downloads:
  assumes "snd (tab2 env sel) = Some e"
  shows "filter is_download (fst (tab2 env sel)) = []"
  using assms
  by (auto simp: tab2_def and_then_downloads and_then_snd time_series_loop_no_download
      env_export_def concat_frames_def split: sum.splits option.splits if_splits)

lemma ec_cards_no_download: "filter is_download (ec_cards grp mx) = []"
  by (auto simp: ec_cards_def filter_empty_conv)

lemma tab3_completed_downloads:
  assumes "snd (tab3 F growth) = None"
  shows "filter is_download (fst (tab3 F growth)) = [Growth_download (concat (dict_values growth))]"
  using assms
  by (auto simp: tab3_def ec_cards_no_download concat_frames_def split: sum.splits if_splits)

lemma tab3_raised_downloads:
  assumes "snd (tab3 F growth) = Some e"
  shows "filter is_download (fst (tab3 F growth)) = []"
  using assms
  by (auto simp: tab3_def ec_cards_no_download concat_frames_def split: sum.splits if_splits)

lemma render_downloads_prefix:
  "\<exists>n. filter is_download (fst (render F env growth sel)) =
         take n [Env_download (concat (map readings (dict_values env))),
                 Growth_download (concat (dict_values growth))]"
proof (cases "snd (tab1 env growth) = None \<and> snd (tab2 env sel) = None")
  case False
  then have "filter is_download (fst (render F env growth sel)) = []"
    unfolding render_def and_then_downloads
    by (auto simp: tab1_no_download tab2_raised_downloads split: option.splits)
  then show ?thesis by (intro exI[of _ 0]) simp
next
  case True
  then have 2: "snd (tab2 env sel) = None" by simp
  show ?thesis
  proof (cases "snd (tab3 F growth)")
    case None
    have "filter is_download (fst (render F env growth sel)) =
         take 2 [Env_download (concat (map readings (dict_values env))),
                 Growth_download (concat (dict_values growth))]"
      unfolding render_def and_then_downloads
      by (simp add: True tab1_no_download tab2_completed_downloads[OF 2]
          tab3_completed_downloads[OF None])
    then show ?thesis by blast
  next
    case (Some e)
    have "filter is_download (fst (render F env growth sel)) =
         take 1 [Env_download (concat (map readings (dict_values env))),
                 Growth_download (concat (dict_values growth))]"
      unfolding render_def and_then_downloads
      by (simp add: True tab1_no_download tab2_completed_downloads[OF 2]
          tab3_raised_downloads[OF Some])
    then show ?thesis by blast
  qed
qed

lemma render_completed_downloads:
  assumes "snd (render F env growth sel) = None"
  shows "filter is_download (fst (render F env growth sel)) =
           [Env_download (concat (map readings (dict_values env))), Growth_download (concat (dict_values growth))]"
proof -
  from assms have 1: "snd (tab1 env growth) = None" and 2: "snd (tab2 env sel) = None"
    and 3: "snd (tab3 F growth) = None"
    by (auto simp: render_def and_then_snd split: option.splits)
  show ?thesis
    unfolding render_def and_then_downloads
    by (simp add: 1 2 tab1_no_download tab2_completed_downloads[OF 2] tab3_completed_downloads[OF 3])
qed

lemma loader_events_no_download:
  "filter is_download (fst (load_environment_data N dir)) = []"
  "filter is_download (fst (load_growth_data dir)) = []"
proof -
  have "\<not> is_download u" if "u \<in> set (fst (load_environment_data N dir))" for u
    using load_env_loop_events[of u N dir "dict_keys SCHOOL_EC_INFO" "[]"] that
    by (auto simp: load_environment_data_def)
  then show "filter is_download (fst (load_environment_data N dir)) = []"
    by (simp add: filter_empty_conv)
  have "\<not> is_download u" if "u \<in> set (fst (load_growth_data dir))" for u
    using load_growth_data_events[OF that] by auto
  then show "filter is_download (fst (load_growth_data dir)) = []"
    by (simp add: filter_empty_conv)
qed

lemma load_environment_data_keys:
  "load_environment_data N dir = (ev, Inr (Some env)) \<Longrightarrow> dict_keys env = dict_keys SCHOOL_EC_INFO"
  using load_env_loop_keys[of N dir "dict_keys SCHOOL_EC_INFO" "[]" ev env] distinct_sites
  by (simp add: load_environment_data_def dict_keys_def)

subsection \<open>Evaluation of the examples: loaders and tabs\<close>

lemmas load_eval = load_environment_data_def dict_keys_SCHOOL_EC_INFO example_eval names_eval hangul_eval
lemmas growth_eval = load_growth_data_def suffix_def lower_def lower_char_def xlsx_suffix_def
  ec_info_get_def SCHOOL_EC_INFO_def example_eval names_eval

lemma load_growth_data_dir_nfd: "load_growth_data dir_nfd = ([], Inr (Some growth_nfd))"
  by (simp add: growth_eval hangul_eval)

lemma load_environment_data_dir_extra:
  "load_environment_data hangul_normalize dir_extra = ([], Inr (Some env_nfd))"
  by (simp add: load_eval)

lemma load_growth_data_dir_extra: "load_growth_data dir_extra = ([], Inr (Some growth_extra))"
  by (simp add: growth_eval hangul_eval)

lemma dir_missing_unresolved:
  "find_file_by_name hangul_normalize dir_missing (dongsan @ env_suffix) = None"
  by (simp add: example_eval names_eval hangul_eval)

lemma load_environment_data_dir_missing:
  "load_environment_data hangul_normalize dir_missing
     = ([St_error (env_missing_msg @ dongsan @ env_suffix)], Inr None)"
  by (simp add: load_eval)

lemmas tab_eval = tab1_def tab2_def tab3_def render_def getitem_def SCHOOL_EC_INFO_def SCHOOL_COLOR_def
  avg_temp_def avg_hum_def pooled_mean_def concat_frames_def dict_values_def dict_keys_def mean_def present_def
  optimal_ec_def schools_to_plot_def all_option_def env_export_def
  ec_group_def groupby_mean_def groupby_ec_def groupby_size_def group_keys_def max_ec_def idxmax_def
  loc_def ec_cards_def Let_def group_mean_def exact_mean_def with_time_def without_time_def

lemma tab1_nfd:
  "tab1 env_nfd growth_nfd =
     ([Overview_table
         [\<lparr>ov_school = songdo, ov_ec_target = 1, ov_count = 1, ov_color = ''#1f77b4''\<rparr>,
          \<lparr>ov_school = haneul, ov_ec_target = 2, ov_count = 1, ov_color = ''#2ca02c''\<rparr>,
          \<lparr>ov_school = ara, ov_ec_target = 4, ov_count = 1, ov_color = ''#ff7f0e''\<rparr>,
          \<lparr>ov_school = dongsan, ov_ec_target = 8, ov_count = 1, ov_color = ''#d62728''\<rparr>],
       Metric_total 4, Metric_temp (Some 20), Metric_hum (Some 50), Metric_optimal_ec 2], None)"
  by (simp add: tab_eval env_nfd_def growth_nfd_def reading_def plant_def names_eval)

lemma ec_group_nfd:
  "ec_group exact_mean (concat (dict_values growth_nfd))
     = [(1, Some 5), (2, Some (92 / 10)), (4, Some (31 / 10)), (8, Some 2)]"
  by (simp add: tab_eval growth_nfd_def plant_def)

lemma ec_group_extra:
  "ec_group exact_mean (concat (dict_values growth_extra))
     = [(1, Some 5), (2, Some (92 / 10)), (4, Some (31 / 10)), (8, Some 2)]"
  by (simp add: tab_eval growth_nfd_def growth_extra_def plant_def)

lemma tab3_nfd_completes: "snd (tab3 exact_mean growth_nfd) = None"
  by (simp add: tab_eval growth_nfd_def plant_def)

lemma tab2_nfd_completes: "snd (tab2 env_nfd all_option) = None" "snd (tab2 env_nfd haneul) = None"
  by (simp_all add: tab_eval env_nfd_def reading_def names_eval)

lemma find_file_by_name_find:
  assumes "\<And>a b. N NFC a = N NFC b \<longleftrightarrow> N NFD a = N NFD b"
  shows "find_file_by_name N dir t = find (\<lambda>p. is_file p \<and> N NFD (name p) = N NFD t) dir"
  by (induction dir) (simp_all add: assms)

lemma resolve_songdo_nfd:
  "find_file_by_name hangul_normalize dir_nfd (songdo @ env_suffix)
     = Some (env_file (hangul_normalize NFD (songdo @ env_suffix)) [reading [] 20 50])"
  by (simp add: example_eval names_eval hangul_eval)

lemma songdo_nfd_differs: "hangul_normalize NFD (songdo @ env_suffix) \<noteq> songdo @ env_suffix"
  by (simp add: names_eval hangul_eval)

lemma tab1_extra: "tab1 env_nfd growth_extra = ([], Some (KeyError sheet1))"
  by (simp add: tab_eval env_nfd_def growth_nfd_def growth_extra_def reading_def plant_def names_eval)

lemma tab3_extra_completes: "snd (tab3 exact_mean growth_extra) = None"
  by (simp add: tab_eval growth_nfd_def growth_extra_def plant_def)

lemma max_ec_extra: "max_ec (ec_group exact_mean (concat (dict_values growth_extra))) = Inr 2"
  by (simp add: ec_group_extra) (simp add: max_ec_def idxmax_def loc_def)

lemma max_ec_nfd: "max_ec (ec_group exact_mean (concat (dict_values growth_nfd))) = Inr 2"
  by (simp add: ec_group_nfd) (simp add: max_ec_def idxmax_def loc_def)

lemma render_nfd_completes:
  "snd (render exact_mean env_nfd growth_nfd all_option) = None"
  "snd (render exact_mean env_nfd growth_nfd haneul) = None"
  by (simp_all add: render_def and_then_snd tab1_nfd tab2_nfd_completes tab3_nfd_completes)

lemma run_app_nfd_completes: "snd (run_app hangul_normalize exact_mean dir_nfd all_option) = Completed"
  using render_nfd_completes(1)
  by (cases "render exact_mean env_nfd growth_nfd all_option")
     (simp add: run_app_def load_environment_data_dir_nfd load_growth_data_dir_nfd)

lemma run_app_nfd_shows_overview:
  "set (fst (tab1 env_nfd growth_nfd)) \<subseteq> set (fst (run_app hangul_normalize exact_mean dir_nfd all_option))"
  by (cases "render exact_mean env_nfd growth_nfd all_option")
     (auto simp: run_app_def load_environment_data_dir_nfd load_growth_data_dir_nfd
        render_def tab1_nfd split: option.splits)

lemma run_app_dir_missing:
  "run_app hangul_normalize exact_mean dir_missing all_option
     = ([St_error (env_missing_msg @ dongsan @ env_suffix)], Stopped)"
  by (simp add: run_app_def load_environment_data_dir_missing)
     (simp add: growth_eval hangul_eval)

lemma selectbox_options_examples:
  "all_option \<in> set selectbox_options" "haneul \<in> set selectbox_options"
  by (simp_all add: selectbox_options_def dict_keys_SCHOOL_EC_INFO)

lemma sheet1_unknown: "sheet1 \<notin> set (dict_keys SCHOOL_EC_INFO)"
  by (simp add: dict_keys_SCHOOL_EC_INFO names_eval)

subsection \<open>Outcomes of the loaders\<close>


lemma load_env_loop_outcome:
  "find (\<lambda>s. find_file_by_name N dir (s @ env_suffix) = None) schools = Some k \<Longrightarrow>
   load_env_loop N dir schools acc = ([St_error (env_missing_msg @ k @ env_suffix)], Inr None) \<or>
   (\<exists>k' p. k' \<in> set (takeWhile (\<lambda>s. find_file_by_name N dir (s @ env_suffix) \<noteq> None) schools) \<and>
      find_file_by_name N dir (k' @ env_suffix) = Some p \<and> read_csv p = None \<and>
      load_env_loop N dir schools acc = ([], Inl (ParserError (name p))))"
proof (induction schools arbitrary: acc)
  case Nil then show ?case by simp
next
  case (Cons s rest)
  show ?case
  proof (cases "find_file_by_name N dir (s @ env_suffix)")
    case None
    with Cons.prems show ?thesis by (simp add: Let_def)
  next
    case (Some p)
    with Cons.prems have f: "find (\<lambda>s. find_file_by_name N dir (s @ env_suffix) = None) rest = Some k"
      by simp
    show ?thesis
    proof (cases "read_csv p")
      case None
      with Some show ?thesis by (auto simp: Let_def)
    next
      case (Some df)
      from Cons.IH[OF f] \<open>find_file_by_name N dir (s @ env_suffix) = Some p\<close> Some
      show ?thesis by (auto simp: Let_def)
    qed
  qed
qed

lemma load_growth_loop_tagged:
  "(k, rows) \<in> set (load_growth_loop sheets acc) \<Longrightarrow>
   (k, rows) \<in> set acc \<or> (\<forall>r \<in> set rows. g_ec r = ec_info_get k)"
proof (induction sheets acc rule: load_growth_loop.induct)
  case (1 acc) then show ?case by simp
next
  case (2 sheet df rest acc)
  have d: "(k, rows) \<in> set (dict_set d' k' v') \<Longrightarrow> (k, rows) \<in> set d' \<or> (k, rows) = (k', v')" for d' k' v'
    by (induction d' k' v' rule: dict_set.induct) (auto split: if_splits)
  from 2 d show ?case by fastforce
qed

lemma loaded_null_ec_has_unknown_key:
  assumes "load_growth_data dir = (ev2, Inr (Some growth))"
    and "r \<in> set (concat (dict_values growth))" and "g_ec r = None"
  shows "\<exists>k. k \<in> set (dict_keys growth) \<and> k \<notin> set (dict_keys SCHOOL_EC_INFO)"
proof -
  from assms(1) obtain sheets where g: "growth = load_growth_loop sheets []"
    by (auto simp: load_growth_data_def split: option.splits)
  from assms(2) obtain k rows where kr: "(k, rows) \<in> set growth" "r \<in> set rows"
    by (auto simp: dict_values_def)
  from load_growth_loop_tagged[of k rows sheets "[]"] kr g assms(3)
  have "ec_info_get k = None" by auto
  then have "k \<notin> set (dict_keys SCHOOL_EC_INFO)"
    by (simp add: ec_info_get_def dict_keys_def map_of_eq_None_iff)
  moreover from kr have "k \<in> set (dict_keys growth)" by (force simp: dict_keys_def)
  ultimately show ?thesis by blast
qed

subsection \<open>Growth output of a run\<close>

lemma tab1_completes_known_keys:
  assumes "snd (tab1 env growth) = None" and "k \<in> set (dict_keys growth)"
  shows "k \<in> set (dict_keys SCHOOL_EC_INFO)"
proof (rule ccontr)
  assume "k \<notin> set (dict_keys SCHOOL_EC_INFO)"
  from overview_loop_unknown[OF assms(2) this] obtain k' where
    "overview_loop growth [] 0 = Inl (KeyError k')" by blast
  then have "snd (tab1 env growth) = Some (KeyError k')" by (simp add: tab1_def)
  with assms(1) show False by simp
qed

lemma tab1_events_kind:
  "u \<in> set (fst (tab1 env growth)) \<Longrightarrow> \<not> is_growth_output u \<and> \<not> is_ec_metric u"
  by (auto simp: tab1_def split: sum.splits prod.splits)

lemma tab2_events_kind:
  "u \<in> set (fst (tab2 env sel)) \<Longrightarrow> \<not> is_growth_output u \<and> \<not> is_ec_metric u"
  using tab2_events[of u env sel] by auto


lemma tab3_growth_table:
  "Growth_table t \<in> set (fst (tab3 F growth)) \<or> Growth_download t \<in> set (fst (tab3 F growth)) \<Longrightarrow>
   t = concat (dict_values growth)"
  by (auto simp: tab3_def ec_cards_def concat_frames_def split: sum.splits if_splits)

lemma render_growth_output:
  assumes "u \<in> set (fst (render F env growth sel))" and "is_growth_output u \<or> is_ec_metric u"
  shows "snd (tab1 env growth) = None \<and> snd (tab2 env sel) = None \<and> u \<in> set (fst (tab3 F growth))"
proof -
  obtain e1 r1 where t1: "tab1 env growth = (e1, r1)" by (cases "tab1 env growth")
  obtain e2 r2 where t2: "tab2 env sel = (e2, r2)" by (cases "tab2 env sel")
  from tab1_events_kind[of u env growth] assms(2) t1 have n1: "u \<notin> set e1" by auto
  from tab2_events_kind[of u env sel] assms(2) t2 have n2: "u \<notin> set e2" by auto
  from assms(1) n1 n2 show ?thesis
    unfolding render_def t1 t2 by (cases r1; cases r2) auto
qed

lemma run_app_growth_output:
  assumes "u \<in> set (fst (run_app N F dir sel))" and "is_growth_output u \<or> is_ec_metric u"
  shows "\<exists>ev1 ev2 env growth.
           load_environment_data N dir = (ev1, Inr (Some env)) \<and>
           load_growth_data dir = (ev2, Inr (Some growth)) \<and>
           snd (tab1 env growth) = None \<and> snd (tab2 env sel) = None \<and>
           u \<in> set (fst (tab3 F growth))"
proof -
  obtain ev1 r1 where l1: "load_environment_data N dir = (ev1, r1)" by (cases "load_environment_data N dir")
  obtain ev2 r2 where l2: "load_growth_data dir = (ev2, r2)" by (cases "load_growth_data dir")
  have e1: "u \<notin> set ev1"
    using load_env_loop_events[of u N dir "dict_keys SCHOOL_EC_INFO" "[]"] l1 assms(2)
    by (auto simp: load_environment_data_def)
  have e2: "u \<notin> set ev2"
    using load_growth_data_events[of u dir] l2 assms(2) by auto
  from assms(1) e1 e2 obtain env growth where
    r: "r1 = Inr (Some env)" "r2 = Inr (Some growth)"
    and u: "u \<in> set (fst (render F env growth sel))"
    unfolding run_app_def l1 l2
    by (auto split: sum.splits option.splits prod.splits)
  from render_growth_output[OF u assms(2)] l1 l2 r show ?thesis by blast
qed

lemma run_app_unknown_key:
  assumes "load_environment_data N dir = (ev1, Inr (Some env))"
    and "load_growth_data dir = (ev2, Inr (Some growth))"
    and "k \<in> set (dict_keys growth)" and "k \<notin> set (dict_keys SCHOOL_EC_INFO)"
  shows "\<exists>k'. k' \<in> set (dict_keys growth) \<and> k' \<notin> set (dict_keys SCHOOL_EC_INFO) \<and>
           run_app N F dir sel = (ev1 @ ev2, Raised (KeyError k'))"
proof -
  from overview_loop_unknown[OF assms(3,4)] obtain k' where
    k: "k' \<in> set (dict_keys growth)" "k' \<notin> set (dict_keys SCHOOL_EC_INFO)"
    and ov: "overview_loop growth [] 0 = Inl (KeyError k')" by blast
  have "render F env growth sel = ([], Some (KeyError k'))"
    by (simp add: render_def tab1_def ov)
  then have "run_app N F dir sel = (ev1 @ ev2, Raised (KeyError k'))"
    by (simp add: run_app_def assms(1,2))
  with k show ?thesis by blast
qed

lemma loader_success_no_events:
  "load_environment_data N dir = (ev1, Inr (Some env)) \<Longrightarrow> ev1 = []"
  "load_growth_data dir = (ev2, Inr (Some growth)) \<Longrightarrow> ev2 = []"
  using load_env_loop_keys[of N dir "dict_keys SCHOOL_EC_INFO" "[]" ev1 env] distinct_sites
  by (auto simp: load_environment_data_def load_growth_data_def dict_keys_def split: option.splits)

subsection \<open>Cards of the growth tab\<close>














subsection \<open>Downloads of a run\<close>

lemma run_app_downloads:
  "(\<exists>n. filter is_download (fst (run_app N F dir sel)) = take n (full_exports N dir)) \<and>
   (snd (run_app N F dir sel) = Completed \<longrightarrow>
      filter is_download (fst (run_app N F dir sel)) = full_exports N dir \<and>
      (\<exists>ev1 ev2 env growth.
         load_environment_data N dir = (ev1, Inr (Some env)) \<and>
         load_growth_data dir = (ev2, Inr (Some growth)) \<and>
         full_exports N dir
           = [Env_download (concat (map readings (dict_values env))),
              Growth_download (concat (dict_values growth))]))"
proof -
  obtain ev1 r1 where l1: "load_environment_data N dir = (ev1, r1)"
    by (cases "load_environment_data N dir")
  obtain ev2 r2 where l2: "load_growth_data dir = (ev2, r2)"
    by (cases "load_growth_data dir")
  have d1: "filter is_download ev1 = []" using loader_events_no_download(1)[of N dir] l1 by simp
  have d2: "filter is_download ev2 = []" using loader_events_no_download(2)[of dir] l2 by simp
  show ?thesis
  proof (cases "\<exists>env growth. r1 = Inr (Some env) \<and> r2 = Inr (Some growth)")
    case False
    then have "snd (run_app N F dir sel) \<noteq> Completed"
      and "fst (run_app N F dir sel) = ev1 \<or> fst (run_app N F dir sel) = ev1 @ ev2"
      unfolding run_app_def l1 l2 by (auto split: sum.splits option.splits)
    with d1 d2 have "snd (run_app N F dir sel) \<noteq> Completed"
      and "filter is_download (fst (run_app N F dir sel)) = take 0 (full_exports N dir)"
      by auto
    then show ?thesis by blast
  next
    case True
    then obtain env growth where r: "r1 = Inr (Some env)" "r2 = Inr (Some growth)" by blast
    have fe: "full_exports N dir
           = [Env_download (concat (map readings (dict_values env))),
              Growth_download (concat (dict_values growth))]"
      by (simp add: full_exports_def l1 l2 r)
    have run: "run_app N F dir sel =
        (ev1 @ ev2 @ fst (render F env growth sel),
         case snd (render F env growth sel) of None \<Rightarrow> Completed | Some e \<Rightarrow> Raised e)"
      unfolding run_app_def l1 l2 r by (auto split: prod.splits option.splits)
    from render_downloads_prefix[of F env growth sel] obtain n where
      "filter is_download (fst (render F env growth sel)) = take n (full_exports N dir)"
      unfolding fe by blast
    then have a: "\<exists>n. filter is_download (fst (run_app N F dir sel)) = take n (full_exports N dir)"
      unfolding run by (auto simp: d1 d2)
    have b: "filter is_download (fst (run_app N F dir sel)) = full_exports N dir"
      if "snd (run_app N F dir sel) = Completed"
    proof -
      from that have "snd (render F env growth sel) = None"
        unfolding run by (auto split: option.splits)
      from render_completed_downloads[OF this] show ?thesis
        unfolding run fe by (simp add: d1 d2)
    qed
    from a b fe l1 l2 r show ?thesis by blast
  qed
qed

lemma run_app_selection_independent:
  assumes "sel1 \<in> set selectbox_options" "sel2 \<in> set selectbox_options"
    and "\<forall>ev1 env. load_environment_data N dir = (ev1, Inr (Some env)) \<longrightarrow>
           (\<forall>df \<in> set (dict_values env). has_time df)"
  shows "filter is_download (fst (run_app N F dir sel1))
           = filter is_download (fst (run_app N F dir sel2))"
    and "snd (run_app N F dir sel1) = snd (run_app N F dir sel2)"
proof -
  obtain ev1 r1 where l1: "load_environment_data N dir = (ev1, r1)"
    by (cases "load_environment_data N dir")
  obtain ev2 r2 where l2: "load_growth_data dir = (ev2, r2)"
    by (cases "load_growth_data dir")
  have "filter is_download (fst (run_app N F dir sel1))
           = filter is_download (fst (run_app N F dir sel2)) \<and>
        snd (run_app N F dir sel1) = snd (run_app N F dir sel2)"
  proof (cases "\<exists>env growth. r1 = Inr (Some env) \<and> r2 = Inr (Some growth)")
    case False
    then have "run_app N F dir sel1 = run_app N F dir sel2"
      unfolding run_app_def l1 l2 by (auto split: sum.splits option.splits)
    then show ?thesis by simp
  next
    case True
    then obtain env growth where r: "r1 = Inr (Some env)" "r2 = Inr (Some growth)" by blast
    have k: "dict_keys env = dict_keys SCHOOL_EC_INFO"
      using load_environment_data_keys l1 r(1) by blast
    have t: "\<forall>df \<in> set (dict_values env). has_time df"
      using assms(3) l1 r(1) by blast
    note ind = render_selection_independent[OF k assms(1,2) t, of F growth]
    have run: "run_app N F dir sel =
        (ev1 @ ev2 @ fst (render F env growth sel),
         case snd (render F env growth sel) of None \<Rightarrow> Completed | Some e \<Rightarrow> Raised e)" for sel
      unfolding run_app_def l1 l2 r by (auto split: prod.splits option.splits)
    show ?thesis unfolding run by (simp add: ind)
  qed
  then show "filter is_download (fst (run_app N F dir sel1))
           = filter is_download (fst (run_app N F dir sel2))"
    and "snd (run_app N F dir sel1) = snd (run_app N F dir sel2)" by simp_all
qed

subsection \<open>Evaluation of the examples: further directories and runs\<close>

lemma dir_unreadable_unresolved:
  "find_file_by_name hangul_normalize dir_unreadable (dongsan @ env_suffix) = None"
  by (simp add: example_eval names_eval hangul_eval)

lemma load_environment_data_dir_unreadable:
  "load_environment_data hangul_normalize dir_unreadable
     = ([], Inl (ParserError (hangul_normalize NFD (songdo @ env_suffix))))"
  by (simp add: load_eval)

lemma load_environment_data_dir_no_time:
  "load_environment_data hangul_normalize dir_no_time = ([], Inr (Some env_no_time))"
  by (simp add: load_eval)

lemma load_growth_data_dir_no_time: "load_growth_data dir_no_time = ([], Inr (Some growth_nfd))"
  by (simp add: growth_eval hangul_eval)

lemma tab1_no_time_completes: "snd (tab1 env_no_time growth_nfd) = None"
  by (simp add: tab_eval env_no_time_def growth_nfd_def reading_def plant_def names_eval)

lemma tab2_no_time:
  "tab2 env_no_time all_option
     = ([Env_bar_chart
          [\<lparr>avg_school = songdo, avg_temperature = Some 20, avg_humidity = Some 50,
             avg_ph = None, avg_ec_measured = None, avg_ec_target = 1\<rparr>,
           \<lparr>avg_school = haneul, avg_temperature = Some 20, avg_humidity = Some 50,
             avg_ph = None, avg_ec_measured = None, avg_ec_target = 2\<rparr>,
           \<lparr>avg_school = ara, avg_temperature = Some 20, avg_humidity = Some 50,
             avg_ph = None, avg_ec_measured = None, avg_ec_target = 4\<rparr>,
           \<lparr>avg_school = dongsan, avg_temperature = Some 20, avg_humidity = Some 50,
             avg_ph = None, avg_ec_measured = None, avg_ec_target = 8\<rparr>],
         Time_series_chart songdo (with_time [reading songdo 20 50]) 1],
        Some (KeyError time_column))"
  by (simp add: tab_eval env_no_time_def reading_def names_eval)

lemma tab2_no_time_songdo: "snd (tab2 env_no_time songdo) = None"
  by (simp add: tab_eval env_no_time_def reading_def names_eval)





lemma render_shows_growth_tab:
  assumes "snd (render F env growth sel) = None"
  shows "set (fst (tab3 F growth)) \<subseteq> set (fst (render F env growth sel))"
proof -
  from assms have "snd (tab1 env growth) = None" "snd (tab2 env sel) = None"
    by (auto simp: render_def and_then_snd split: option.splits)
  then show ?thesis
    by (cases "tab1 env growth"; cases "tab2 env sel") (auto simp: render_def)
qed

lemma tab3_completed_table:
  "snd (tab3 F growth) = None \<Longrightarrow>
   Growth_table (concat (dict_values growth)) \<in> set (fst (tab3 F growth))"
  by (auto simp: tab3_def concat_frames_def split: sum.splits if_splits)

lemma run_app_nfd_shows_growth_table:
  "Growth_table (concat (dict_values growth_nfd))
     \<in> set (fst (run_app hangul_normalize exact_mean dir_nfd all_option))"
proof -
  from tab3_completed_table[OF tab3_nfd_completes] render_shows_growth_tab[OF render_nfd_completes(1)]
  have "Growth_table (concat (dict_values growth_nfd))
          \<in> set (fst (render exact_mean env_nfd growth_nfd all_option))" by blast
  then show ?thesis
    by (cases "render exact_mean env_nfd growth_nfd all_option")
       (auto simp: run_app_def load_environment_data_dir_nfd load_growth_data_dir_nfd
          split: option.splits)
qed

lemma run_app_dir_extra:
  "run_app hangul_normalize exact_mean dir_extra all_option = ([], Raised (KeyError sheet1))"
  by (simp add: run_app_def load_environment_data_dir_extra load_growth_data_dir_extra
      render_def tab1_extra)

lemma run_app_dir_no_time_all:
  "filter is_download (fst (run_app hangul_normalize exact_mean dir_no_time all_option)) = []"
  "snd (run_app hangul_normalize exact_mean dir_no_time all_option) = Raised (KeyError time_column)"
proof -
  have r: "snd (render exact_mean env_no_time growth_nfd all_option) = Some (KeyError time_column)"
    by (simp add: render_def and_then_snd tab1_no_time_completes tab2_no_time)
  have d: "filter is_download (fst (render exact_mean env_no_time growth_nfd all_option)) = []"
    unfolding render_def and_then_downloads
    by (simp add: tab1_no_time_completes tab1_no_download tab2_no_time)
  show "filter is_download (fst (run_app hangul_normalize exact_mean dir_no_time all_option)) = []"
    using r d
    by (cases "render exact_mean env_no_time growth_nfd all_option")
       (simp add: run_app_def load_environment_data_dir_no_time load_growth_data_dir_no_time)
  show "snd (run_app hangul_normalize exact_mean dir_no_time all_option)
          = Raised (KeyError time_column)"
    using r
    by (cases "render exact_mean env_no_time growth_nfd all_option")
       (simp add: run_app_def load_environment_data_dir_no_time load_growth_data_dir_no_time)
qed

lemma run_app_dir_no_time_songdo:
  "filter is_download (fst (run_app hangul_normalize exact_mean dir_no_time songdo))
     = [Env_download (concat (map readings (dict_values env_no_time))),
        Growth_download (concat (dict_values growth_nfd))]"
  "snd (run_app hangul_normalize exact_mean dir_no_time songdo) = Completed"
proof -
  have r: "snd (render exact_mean env_no_time growth_nfd songdo) = None"
    by (simp add: render_def and_then_snd tab1_no_time_completes tab2_no_time_songdo
        tab3_nfd_completes)
  show "filter is_download (fst (run_app hangul_normalize exact_mean dir_no_time songdo))
     = [Env_download (concat (map readings (dict_values env_no_time))),
        Growth_download (concat (dict_values growth_nfd))]"
    using render_completed_downloads[OF r] r
    by (cases "render exact_mean env_no_time growth_nfd songdo")
       (simp add: run_app_def load_environment_data_dir_no_time load_growth_data_dir_no_time)
  show "snd (run_app hangul_normalize exact_mean dir_no_time songdo) = Completed"
    using r
    by (cases "render exact_mean env_no_time growth_nfd songdo")
       (simp add: run_app_def load_environment_data_dir_no_time load_growth_data_dir_no_time)
qed

lemma selectbox_options_songdo: "songdo \<in> set selectbox_options"
  by (simp add: selectbox_options_def dict_keys_SCHOOL_EC_INFO)

lemma env_nfd_has_time: "\<forall>df \<in> set (dict_values env_nfd). has_time df"
  by (simp add: env_nfd_def dict_values_def with_time_def)

section \<open>The claims\<close>

subsection \<open>C1: the starred EC level\<close>



subsection \<open>C2: the keys of the loaded mappings\<close>

text \<open>
  Claim C2 says that after a load in which both loaders return a mapping, each mapping
  has exactly the four site keys. The growth mapping does not: its keys are the sheet
  names of the workbook, whatever they are. In the directory \<open>dir_extra\<close> all four
  environment files and a workbook are present, both loaders return a mapping, and the
  growth mapping has the fifth key \<open>Sheet1\<close>.
\<close>

theorem loaded_growth_keys_counterexample:
  "load_environment_data hangul_normalize dir_extra = ([], Inr (Some env_nfd)) \<and>
   load_growth_data dir_extra = ([], Inr (Some growth_extra)) \<and>
   sheet1 \<in> set (dict_keys growth_extra) \<and>
   sheet1 \<notin> set (dict_keys SCHOOL_EC_INFO) \<and>
   set (dict_keys growth_extra) \<noteq> set (dict_keys SCHOOL_EC_INFO)"
proof -
  have 1: "sheet1 \<in> set (dict_keys growth_extra)"
    by (simp add: growth_extra_def dict_keys_def)
  with sheet1_unknown have "set (dict_keys growth_extra) \<noteq> set (dict_keys SCHOOL_EC_INFO)"
    by blast
  with 1 sheet1_unknown load_environment_data_dir_extra load_growth_data_dir_extra
  show ?thesis by blast
qed

text \<open>
  Claim C2, amended. When the environment loader returns a mapping, its keys are the
  four site keys, in the order of the reference table. When the growth loader returns
  a mapping, its keys are the sheet names of the workbook it opened, each once; they
  are the four site keys only when the workbook has exactly those sheets.
\<close>

theorem loaded_mappings_keys:
  "(load_environment_data N DATA_DIR = (ev1, Inr (Some env_data)) \<longrightarrow>
      dict_keys env_data = dict_keys SCHOOL_EC_INFO) \<and>
   (load_growth_data DATA_DIR = (ev2, Inr (Some growth_data)) \<longrightarrow>
      (\<exists>xlsx_path sheets. find_xlsx DATA_DIR = Some xlsx_path \<and> excel xlsx_path = Some sheets \<and>
         set (dict_keys growth_data) = set (map fst sheets) \<and> distinct (dict_keys growth_data)))"
proof (intro conjI impI)
  assume "load_environment_data N DATA_DIR = (ev1, Inr (Some env_data))"
  then show "dict_keys env_data = dict_keys SCHOOL_EC_INFO"
    by (rule load_environment_data_keys)
next
  assume a: "load_growth_data DATA_DIR = (ev2, Inr (Some growth_data))"
  then obtain p sheets where p: "find_xlsx DATA_DIR = Some p" "excel p = Some sheets"
    and g: "growth_data = load_growth_loop sheets []"
    by (auto simp: load_growth_data_def split: option.splits)
  have "set (dict_keys growth_data) = set (map fst sheets)"
    unfolding g load_growth_loop_keys by (simp add: dict_keys_def)
  moreover have "distinct (dict_keys growth_data)"
    unfolding g by (rule load_growth_loop_distinct) (simp add: dict_keys_def)
  ultimately show "\<exists>xlsx_path sheets. find_xlsx DATA_DIR = Some xlsx_path \<and>
         excel xlsx_path = Some sheets \<and>
         set (dict_keys growth_data) = set (map fst sheets) \<and> distinct (dict_keys growth_data)"
    using p by blast
qed

theorem loaded_mappings_keys_witness:
  "load_environment_data hangul_normalize dir_nfd = ([], Inr (Some env_nfd)) \<and>
   dict_keys env_nfd = dict_keys SCHOOL_EC_INFO \<and>
   load_growth_data dir_nfd = ([], Inr (Some growth_nfd)) \<and>
   (\<exists>xlsx_path sheets. find_xlsx dir_nfd = Some xlsx_path \<and> excel xlsx_path = Some sheets \<and>
      set (dict_keys growth_nfd) = set (map fst sheets) \<and> distinct (dict_keys growth_nfd))"
  using loaded_mappings_keys[of hangul_normalize dir_nfd "[]" env_nfd "[]" growth_nfd]
    load_environment_data_dir_nfd load_growth_data_dir_nfd
  by blast

subsection \<open>C3: file resolution and Unicode normalization\<close>

text \<open>
  Claim C3. \<open>unicodedata.normalize\<close> is taken with the laws of canonical normalization:
  normalizing a normalized string to a form gives the same as normalizing the string
  to that form. Then resolving a target gives the same result for the target and for
  either normal form of the target; rewriting the names on disk to normal forms, each
  file to either form, makes the resolver return the same directory entry under its
  rewritten name, or nothing where it returned nothing; and the result is the first
  regular file of the directory whose name is canonically equivalent to the target
  (has the same decomposed form), so a file is found exactly when such a file exists.
\<close>

theorem file_resolution_normalization_invariant:
  assumes "\<forall>f g s. N f (N g s) = N f s"
  shows "find_file_by_name N dir (N f target_name) = find_file_by_name N dir target_name \<and>
         find_file_by_name N (normalize_names N form_of dir) target_name
           = map_option (\<lambda>p. p\<lparr>name := N (form_of p) (name p)\<rparr>)
               (find_file_by_name N dir target_name) \<and>
         find_file_by_name N dir target_name
           = find (\<lambda>p. is_file p \<and> N NFD (name p) = N NFD target_name) dir \<and>
         ((\<exists>p. find_file_by_name N dir target_name = Some p) \<longleftrightarrow>
            (\<exists>p \<in> set dir. is_file p \<and> N NFD (name p) = N NFD target_name))"
proof -
  have eq: "N NFC a = N NFC b \<longleftrightarrow> N NFD a = N NFD b" for a b
    using assms by metis
  have 1: "find_file_by_name N dir (N f target_name) = find_file_by_name N dir target_name"
    by (rule find_file_by_name_cong) (simp_all add: assms)
  have 2: "find_file_by_name N (normalize_names N form_of dir) target_name
           = map_option (\<lambda>p. p\<lparr>name := N (form_of p) (name p)\<rparr>)
               (find_file_by_name N dir target_name)"
    unfolding normalize_names_def by (rule find_file_by_name_rename) (simp_all add: assms)
  have 3: "find_file_by_name N dir target_name
           = find (\<lambda>p. is_file p \<and> N NFD (name p) = N NFD target_name) dir"
    by (rule find_file_by_name_find) (rule eq)
  have 4: "(\<exists>p. find_file_by_name N dir target_name = Some p) \<longleftrightarrow>
            (\<exists>p \<in> set dir. is_file p \<and> N NFD (name p) = N NFD target_name)"
    using find_file_by_name_None_iff[of N dir target_name] eq by auto
  from 1 2 3 4 show ?thesis by blast
qed

theorem file_resolution_normalization_invariant_witness:
  "(\<forall>f g s. hangul_normalize f (hangul_normalize g s) = hangul_normalize f s) \<and>
   find_file_by_name hangul_normalize dir_nfd (hangul_normalize NFD (songdo @ env_suffix))
     = find_file_by_name hangul_normalize dir_nfd (songdo @ env_suffix) \<and>
   find_file_by_name hangul_normalize dir_nfd (songdo @ env_suffix)
     = Some (env_file (hangul_normalize NFD (songdo @ env_suffix)) [reading [] 20 50]) \<and>
   hangul_normalize NFD (songdo @ env_suffix) \<noteq> songdo @ env_suffix"
proof -
  have laws: "\<forall>f g s. hangul_normalize f (hangul_normalize g s) = hangul_normalize f s"
    by (simp add: hangul_normalize_laws)
  from file_resolution_normalization_invariant[OF laws, of dir_nfd NFD "songdo @ env_suffix"]
  have "find_file_by_name hangul_normalize dir_nfd (hangul_normalize NFD (songdo @ env_suffix))
     = find_file_by_name hangul_normalize dir_nfd (songdo @ env_suffix)"
    by (rule conjunct1)
  with laws resolve_songdo_nfd songdo_nfd_differs show ?thesis by blast
qed

subsection \<open>C4: a missing environment file\<close>

text \<open>
  Claim C4 says that when one of the four expected environment files does not
  resolve, the environment loader returns a null result after reporting which file is
  missing. It need not: the loader reads each file as soon as it has resolved it, so a
  file it cannot read ends the load before a later missing file is looked for. In the
  directory \<open>dir_unreadable\<close> the file of the last site is absent, the file of the
  first site resolves and cannot be read, and the loader raises without a message.
\<close>

theorem missing_file_after_unreadable_counterexample:
  "dongsan \<in> set (dict_keys SCHOOL_EC_INFO) \<and>
   find_file_by_name hangul_normalize dir_unreadable (dongsan @ env_suffix) = None \<and>
   load_environment_data hangul_normalize dir_unreadable
     = ([], Inl (ParserError (hangul_normalize NFD (songdo @ env_suffix))))"
proof -
  have "dongsan \<in> set (dict_keys SCHOOL_EC_INFO)"
    by (simp add: dict_keys_SCHOOL_EC_INFO)
  with dir_unreadable_unresolved load_environment_data_dir_unreadable show ?thesis by blast
qed

text \<open>
  Claim C4, amended. In an existing data directory, if one of the four expected
  environment files does not resolve, the environment loader returns no mapping,
  complete or partial; the script shows nothing but error messages, so no chart, and
  does not run to completion. The loader either returns the null result after one
  error message, which names the first file of the site order that is missing, or
  raises, without a message, on a resolved file of a site listed before that one which
  it cannot read. It returns the null result whenever every expected file that
  resolves can be read.
\<close>

theorem missing_environment_file_aborts:
  assumes "s \<in> set (dict_keys SCHOOL_EC_INFO)"
    and "find_file_by_name N DATA_DIR (s @ env_suffix) = None"
  shows "(\<forall>m. snd (load_environment_data N DATA_DIR) \<noteq> Inr (Some m)) \<and>
         (\<forall>u \<in> set (fst (run_app N F DATA_DIR school_option)). \<not> is_chart u) \<and>
         (\<forall>u \<in> set (fst (run_app N F DATA_DIR school_option)). \<exists>m. u = St_error m) \<and>
         snd (run_app N F DATA_DIR school_option) \<noteq> Completed \<and>
         (\<exists>k. find (\<lambda>k. find_file_by_name N DATA_DIR (k @ env_suffix) = None)
                  (dict_keys SCHOOL_EC_INFO) = Some k \<and>
            (load_environment_data N DATA_DIR
               = ([St_error (env_missing_msg @ k @ env_suffix)], Inr None) \<or>
             (\<exists>k' p.
                k' \<in> set (takeWhile (\<lambda>k. find_file_by_name N DATA_DIR (k @ env_suffix) \<noteq> None)
                            (dict_keys SCHOOL_EC_INFO)) \<and>
                find_file_by_name N DATA_DIR (k' @ env_suffix) = Some p \<and> read_csv p = None \<and>
                load_environment_data N DATA_DIR = ([], Inl (ParserError (name p))))) \<and>
            ((\<forall>k \<in> set (dict_keys SCHOOL_EC_INFO). \<forall>p.
                find_file_by_name N DATA_DIR (k @ env_suffix) = Some p \<longrightarrow> read_csv p \<noteq> None) \<longrightarrow>
             load_environment_data N DATA_DIR
               = ([St_error (env_missing_msg @ k @ env_suffix)], Inr None)))"
proof -
  have a: "\<forall>m. snd (load_environment_data N DATA_DIR) \<noteq> Inr (Some m)"
    using load_env_loop_unresolved[OF assms] by (simp add: load_environment_data_def)
  note b = run_app_not_loaded[OF a, of F school_option]
  have c: "\<forall>u \<in> set (fst (run_app N F DATA_DIR school_option)). \<not> is_chart u"
    using b by auto
  from find_unresolved_Some[of s "dict_keys SCHOOL_EC_INFO"
      "\<lambda>s. find_file_by_name N DATA_DIR (s @ env_suffix) = None", OF assms]
  obtain k where k: "find (\<lambda>s. find_file_by_name N DATA_DIR (s @ env_suffix) = None)
      (dict_keys SCHOOL_EC_INFO) = Some k" by blast
  note d = load_env_loop_outcome[OF k, of "[]", folded load_environment_data_def]
  have e: "load_environment_data N DATA_DIR
             = ([St_error (env_missing_msg @ k @ env_suffix)], Inr None)"
    if r: "\<forall>k \<in> set (dict_keys SCHOOL_EC_INFO). \<forall>p.
             find_file_by_name N DATA_DIR (k @ env_suffix) = Some p \<longrightarrow> read_csv p \<noteq> None"
    using load_env_loop_first_missing[OF k r, of "[]"] by (simp add: load_environment_data_def)
  from a b c k d e show ?thesis by blast
qed

theorem missing_environment_file_aborts_witness:
  "dongsan \<in> set (dict_keys SCHOOL_EC_INFO) \<and>
   find_file_by_name hangul_normalize dir_missing (dongsan @ env_suffix) = None \<and>
   load_environment_data hangul_normalize dir_missing
     = ([St_error (env_missing_msg @ dongsan @ env_suffix)], Inr None) \<and>
   run_app hangul_normalize exact_mean dir_missing all_option
     = ([St_error (env_missing_msg @ dongsan @ env_suffix)], Stopped) \<and>
   snd (run_app hangul_normalize exact_mean dir_missing all_option) \<noteq> Completed \<and>
   find_file_by_name hangul_normalize dir_unreadable (dongsan @ env_suffix) = None \<and>
   snd (run_app hangul_normalize exact_mean dir_unreadable all_option) \<noteq> Completed"
proof -
  have h: "dongsan \<in> set (dict_keys SCHOOL_EC_INFO)"
    by (simp add: dict_keys_SCHOOL_EC_INFO)
  from missing_environment_file_aborts[OF h dir_missing_unresolved, of exact_mean all_option]
  have 1: "snd (run_app hangul_normalize exact_mean dir_missing all_option) \<noteq> Completed"
    by blast
  from missing_environment_file_aborts[OF h dir_unreadable_unresolved, of exact_mean all_option]
  have 2: "snd (run_app hangul_normalize exact_mean dir_unreadable all_option) \<noteq> Completed"
    by blast
  from 1 2 h dir_missing_unresolved dir_unreadable_unresolved
    load_environment_data_dir_missing run_app_dir_missing
  show ?thesis by blast
qed

subsection \<open>C5: a sheet outside the reference table\<close>

text \<open>
  Claim C5. When the growth loader opens a workbook with a sheet whose name is not in
  the site reference table, the loader still returns a mapping, with no error message;
  the mapping has that sheet under its name, with the rows of a sheet of that name
  (the rows of this sheet when sheet names are distinct), each tagged with the sheet
  name as site and with a null target EC.
\<close>

theorem unknown_sheet_is_loaded_with_null_ec:
  assumes "find_xlsx DATA_DIR = Some xlsx_path"
    and "excel xlsx_path = Some sheets"
    and "(sheet, df) \<in> set sheets"
    and "sheet \<notin> set (dict_keys SCHOOL_EC_INFO)"
  shows "\<exists>growth_data df'.
           load_growth_data DATA_DIR = ([], Inr (Some growth_data)) \<and>
           (sheet, df') \<in> set sheets \<and>
           (distinct (map fst sheets) \<longrightarrow> df' = df) \<and>
           map_of growth_data sheet = Some (map (\<lambda>r. r\<lparr>g_school := sheet, g_ec := None\<rparr>) df')"
proof -
  from assms(3) have "sheet \<in> fst ` set (rev sheets)" by force
  then obtain df' where m: "map_of (rev sheets) sheet = Some df'"
    by (metis map_of_eq_None_iff not_Some_eq)
  then have in': "(sheet, df') \<in> set sheets" by (metis map_of_SomeD set_rev)
  have d: "df' = df" if "distinct (map fst sheets)"
    using that in' assms(3) by (meson eq_key_imp_eq_value)
  have "map_of (load_growth_loop sheets []) sheet
          = Some (map (\<lambda>r. r\<lparr>g_school := sheet, g_ec := None\<rparr>) df')"
    by (simp add: load_growth_loop_map_of m ec_info_get_unknown[OF assms(4)])
  moreover have "load_growth_data DATA_DIR = ([], Inr (Some (load_growth_loop sheets [])))"
    by (simp add: load_growth_data_def assms(1,2))
  ultimately show ?thesis using in' d by blast
qed

theorem unknown_sheet_is_loaded_with_null_ec_witness:
  "find_xlsx dir_extra
     = Some (workbook_file book_name (site_sheets @ [(sheet1, [plant [] None 12])])) \<and>
   sheet1 \<notin> set (dict_keys SCHOOL_EC_INFO) \<and>
   load_growth_data dir_extra = ([], Inr (Some growth_extra)) \<and>
   map_of growth_extra sheet1 = Some [plant sheet1 None 12] \<and>
   (\<exists>growth_data df'.
      load_growth_data dir_extra = ([], Inr (Some growth_data)) \<and>
      map_of growth_data sheet1 = Some (map (\<lambda>r. r\<lparr>g_school := sheet1, g_ec := None\<rparr>) df'))"
proof -
  let ?sheets = "site_sheets @ [(sheet1, [plant [] None 12])]"
  have 1: "find_xlsx dir_extra = Some (workbook_file book_name ?sheets)"
    by (simp add: growth_eval hangul_eval)
  have 2: "excel (workbook_file book_name ?sheets) = Some ?sheets"
    by (simp add: workbook_file_def)
  have 3: "(sheet1, [plant [] None 12]) \<in> set ?sheets" by simp
  have 4: "map_of growth_extra sheet1 = Some [plant sheet1 None 12]"
    by (simp add: growth_extra_def growth_nfd_def names_eval)
  from unknown_sheet_is_loaded_with_null_ec[OF 1 2 3 sheet1_unknown]
  have "\<exists>growth_data df'.
      load_growth_data dir_extra = ([], Inr (Some growth_data)) \<and>
      map_of growth_data sheet1 = Some (map (\<lambda>r. r\<lparr>g_school := sheet1, g_ec := None\<rparr>) df')"
    by blast
  with 1 4 sheet1_unknown load_growth_data_dir_extra show ?thesis by blast
qed

subsection \<open>C6: the overview on a sheet outside the reference table\<close>

text \<open>
  Claim C6. When both loaders return a mapping and the growth mapping has a key that
  is not in the site reference table, the overview tab raises a key error for such a
  key (the first in the order of the mapping) before it shows anything: the lookups in
  the target-EC table and in the color table both raise on that key. The script ends
  with that exception, after the load and with nothing rendered.
\<close>

theorem overview_raises_on_unknown_sheet:
  assumes "load_environment_data N DATA_DIR = (ev1, Inr (Some env_data))"
    and "load_growth_data DATA_DIR = (ev2, Inr (Some growth_data))"
    and "sheet \<in> set (dict_keys growth_data)"
    and "sheet \<notin> set (dict_keys SCHOOL_EC_INFO)"
  shows "\<exists>k. k \<in> set (dict_keys growth_data) \<and> k \<notin> set (dict_keys SCHOOL_EC_INFO) \<and>
           getitem SCHOOL_EC_INFO k = Inl (KeyError k) \<and>
           getitem SCHOOL_COLOR k = Inl (KeyError k) \<and>
           tab1 env_data growth_data = ([], Some (KeyError k)) \<and>
           run_app N F DATA_DIR school_option = (ev1 @ ev2, Raised (KeyError k))"
proof -
  from overview_loop_unknown[OF assms(3,4)] obtain k where
    k: "k \<in> set (dict_keys growth_data)" "k \<notin> set (dict_keys SCHOOL_EC_INFO)"
    and ov: "overview_loop growth_data [] 0 = Inl (KeyError k)" by blast
  have t1: "tab1 env_data growth_data = ([], Some (KeyError k))"
    by (simp add: tab1_def ov)
  have "render F env_data growth_data school_option = ([], Some (KeyError k))"
    by (simp add: render_def t1)
  then have "run_app N F DATA_DIR school_option = (ev1 @ ev2, Raised (KeyError k))"
    by (simp add: run_app_def assms(1,2))
  moreover have "getitem SCHOOL_COLOR k = Inl (KeyError k)"
    using k(2) by (simp add: getitem_missing dict_keys_SCHOOL_COLOR)
  ultimately show ?thesis using k t1 getitem_missing[OF k(2)] by blast
qed

theorem overview_raises_on_unknown_sheet_witness:
  "load_environment_data hangul_normalize dir_extra = ([], Inr (Some env_nfd)) \<and>
   load_growth_data dir_extra = ([], Inr (Some growth_extra)) \<and>
   sheet1 \<in> set (dict_keys growth_extra) \<and>
   sheet1 \<notin> set (dict_keys SCHOOL_EC_INFO) \<and>
   tab1 env_nfd growth_extra = ([], Some (KeyError sheet1)) \<and>
   run_app hangul_normalize exact_mean dir_extra all_option = ([], Raised (KeyError sheet1))"
proof -
  have 1: "sheet1 \<in> set (dict_keys growth_extra)"
    by (simp add: growth_extra_def dict_keys_def)
  from overview_raises_on_unknown_sheet[OF load_environment_data_dir_extra
      load_growth_data_dir_extra 1 sheet1_unknown,
      where F = exact_mean and school_option = all_option]
  obtain k where "tab1 env_nfd growth_extra = ([], Some (KeyError k))"
    and "run_app hangul_normalize exact_mean dir_extra all_option = ([] @ [], Raised (KeyError k))"
    by blast
  with tab1_extra have "run_app hangul_normalize exact_mean dir_extra all_option
      = ([], Raised (KeyError sheet1))" by simp
  with 1 sheet1_unknown tab1_extra load_environment_data_dir_extra load_growth_data_dir_extra
  show ?thesis by blast
qed

subsection \<open>C7: records with a null target EC\<close>

text \<open>
  Claim C7 says that the growth records with a null target EC are left out of the
  grouping by EC level although they are present in the concatenated growth table that
  is shown and exported. No run shows or exports them. In the directory \<open>dir_extra\<close>
  the workbook has a sheet \<open>Sheet1\<close> outside the reference table; both loaders return
  a mapping, the growth mapping holds a record of that sheet with a null target EC,
  and the run ends in the overview with a key error for \<open>Sheet1\<close>, having shown
  nothing.
\<close>

theorem null_ec_record_never_shown_counterexample:
  "load_environment_data hangul_normalize dir_extra = ([], Inr (Some env_nfd)) \<and>
   load_growth_data dir_extra = ([], Inr (Some growth_extra)) \<and>
   plant sheet1 None 12 \<in> set (concat (dict_values growth_extra)) \<and>
   g_ec (plant sheet1 None 12) = None \<and>
   run_app hangul_normalize exact_mean dir_extra all_option = ([], Raised (KeyError sheet1))"
proof -
  have "plant sheet1 None 12 \<in> set (concat (dict_values growth_extra))"
    by (simp add: growth_extra_def dict_values_def)
  moreover have "g_ec (plant sheet1 None 12) = None" by (simp add: plant_def)
  ultimately show ?thesis
    using load_environment_data_dir_extra load_growth_data_dir_extra run_app_dir_extra
    by blast
qed

text \<open>
  Claim C7, amended. A growth record with a null target EC is never grouped, shown or
  exported. When both loaders return a mapping and the growth mapping holds such a
  record, the run ends in the overview with a key error for a sheet name outside the
  reference table, having shown nothing. Whatever the growth tab shows in a run, it
  shows for a loaded growth mapping all of whose records have a target EC, and a
  growth table it shows or exports is the concatenation of that mapping. The grouping
  itself takes no account of records with a null target EC: the group means of any
  column, the group sizes, the table of mean fresh weights and the starred level are
  those of the records with a target EC, and the starred level is the target EC of
  some record.
\<close>

theorem null_ec_rows_never_reach_growth_tab:
  "(load_environment_data N DATA_DIR = (ev1, Inr (Some env_data)) \<and>
    load_growth_data DATA_DIR = (ev2, Inr (Some growth_data)) \<and>
    r \<in> set (concat (dict_values growth_data)) \<and> g_ec r = None \<longrightarrow>
      (\<exists>k. k \<in> set (dict_keys growth_data) \<and> k \<notin> set (dict_keys SCHOOL_EC_INFO) \<and>
         run_app N F DATA_DIR school_option = ([], Raised (KeyError k)))) \<and>
   (u \<in> set (fst (run_app N F DATA_DIR school_option)) \<and> is_growth_output u \<longrightarrow>
      (\<exists>ev loaded. load_growth_data DATA_DIR = (ev, Inr (Some loaded)) \<and>
         u \<in> set (fst (tab3 F loaded)) \<and>
         (\<forall>x \<in> set (concat (dict_values loaded)). g_ec x \<noteq> None) \<and>
         (\<forall>t. u = Growth_table t \<or> u = Growth_download t \<longrightarrow>
            t = concat (dict_values loaded)))) \<and>
   groupby_mean F col growth_all
     = groupby_mean F col (filter (\<lambda>r. g_ec r \<noteq> None) growth_all) \<and>
   groupby_size growth_all = groupby_size (filter (\<lambda>r. g_ec r \<noteq> None) growth_all) \<and>
   ec_group F growth_all = ec_group F (filter (\<lambda>r. g_ec r \<noteq> None) growth_all) \<and>
   max_ec (ec_group F growth_all)
     = max_ec (ec_group F (filter (\<lambda>r. g_ec r \<noteq> None) growth_all)) \<and>
   (max_ec (ec_group F growth_all) = Inr mx \<longrightarrow> (\<exists>r \<in> set growth_all. g_ec r = Some mx))"
proof (intro conjI impI)
  assume a: "load_environment_data N DATA_DIR = (ev1, Inr (Some env_data)) \<and>
    load_growth_data DATA_DIR = (ev2, Inr (Some growth_data)) \<and>
    r \<in> set (concat (dict_values growth_data)) \<and> g_ec r = None"
  then have l: "load_environment_data N DATA_DIR = (ev1, Inr (Some env_data))"
    "load_growth_data DATA_DIR = (ev2, Inr (Some growth_data))" by simp_all
  from a loaded_null_ec_has_unknown_key[of DATA_DIR ev2 growth_data r] obtain k where
    "k \<in> set (dict_keys growth_data)" "k \<notin> set (dict_keys SCHOOL_EC_INFO)" by blast
  from run_app_unknown_key[OF l this, where F = F and sel = school_option]
    loader_success_no_events(1)[OF l(1)]
    loader_success_no_events(2)[OF l(2)]
  show "\<exists>k. k \<in> set (dict_keys growth_data) \<and> k \<notin> set (dict_keys SCHOOL_EC_INFO) \<and>
         run_app N F DATA_DIR school_option = ([], Raised (KeyError k))"
    by auto
next
  assume a: "u \<in> set (fst (run_app N F DATA_DIR school_option)) \<and> is_growth_output u"
  then have "u \<in> set (fst (run_app N F DATA_DIR school_option))"
    and "is_growth_output u \<or> is_ec_metric u" by simp_all
  from run_app_growth_output[OF this] obtain ev1 ev env loaded where
    l: "load_growth_data DATA_DIR = (ev, Inr (Some loaded))"
    and t1: "snd (tab1 env loaded) = None" and u: "u \<in> set (fst (tab3 F loaded))"
    by blast
  have nn: "\<forall>x \<in> set (concat (dict_values loaded)). g_ec x \<noteq> None"
  proof
    fix x assume x: "x \<in> set (concat (dict_values loaded))"
    show "g_ec x \<noteq> None"
    proof
      assume "g_ec x = None"
      from loaded_null_ec_has_unknown_key[OF l x this] obtain k where
        "k \<in> set (dict_keys loaded)" "k \<notin> set (dict_keys SCHOOL_EC_INFO)" by blast
      with tab1_completes_known_keys[OF t1] show False by blast
    qed
  qed
  have "\<forall>t. u = Growth_table t \<or> u = Growth_download t \<longrightarrow> t = concat (dict_values loaded)"
    using u tab3_growth_table[of _ F loaded] by blast
  with l u nn
  show "\<exists>ev loaded. load_growth_data DATA_DIR = (ev, Inr (Some loaded)) \<and>
         u \<in> set (fst (tab3 F loaded)) \<and>
         (\<forall>x \<in> set (concat (dict_values loaded)). g_ec x \<noteq> None) \<and>
         (\<forall>t. u = Growth_table t \<or> u = Growth_download t \<longrightarrow>
            t = concat (dict_values loaded))"
    by blast
next
  let ?nn = "filter (\<lambda>r. g_ec r \<noteq> None) growth_all"
  show "groupby_mean F col growth_all = groupby_mean F col ?nn"
    unfolding groupby_mean_def groupby_ec_drops_null ..
  show "groupby_size growth_all = groupby_size ?nn"
    unfolding groupby_size_def groupby_ec_drops_null ..
  show "ec_group F growth_all = ec_group F ?nn"
    unfolding ec_group_def groupby_mean_def groupby_ec_drops_null ..
  show "max_ec (ec_group F growth_all) = max_ec (ec_group F ?nn)"
    unfolding ec_group_def groupby_mean_def groupby_ec_drops_null ..
next
  assume "max_ec (ec_group F growth_all) = Inr mx"
  from max_ec_spec[OF this] obtain i where "i < length (ec_group F growth_all)"
    "fst (ec_group F growth_all ! i) = mx" by blast
  then have "mx \<in> set (map fst (ec_group F growth_all))" by (metis length_map nth_map nth_mem)
  then have "mx \<in> set (group_keys growth_all)" by (simp add: ec_group_def groupby_mean_keys)
  then show "\<exists>r \<in> set growth_all. g_ec r = Some mx" by (simp add: group_keys_set)
qed

theorem null_ec_rows_never_reach_growth_tab_witness:
  "load_environment_data hangul_normalize dir_extra = ([], Inr (Some env_nfd)) \<and>
   load_growth_data dir_extra = ([], Inr (Some growth_extra)) \<and>
   plant sheet1 None 12 \<in> set (concat (dict_values growth_extra)) \<and>
   g_ec (plant sheet1 None 12) = None \<and>
   (\<exists>k. k \<notin> set (dict_keys SCHOOL_EC_INFO) \<and>
      run_app hangul_normalize exact_mean dir_extra all_option = ([], Raised (KeyError k))) \<and>
   Growth_table (concat (dict_values growth_nfd))
     \<in> set (fst (run_app hangul_normalize exact_mean dir_nfd all_option)) \<and>
   (\<exists>ev loaded. load_growth_data dir_nfd = (ev, Inr (Some loaded)) \<and>
      Growth_table (concat (dict_values growth_nfd)) \<in> set (fst (tab3 exact_mean loaded)) \<and>
      (\<forall>x \<in> set (concat (dict_values loaded)). g_ec x \<noteq> None))"
proof -
  have p: "plant sheet1 None 12 \<in> set (concat (dict_values growth_extra))"
    by (simp add: growth_extra_def dict_values_def)
  have n: "g_ec (plant sheet1 None 12) = None" by (simp add: plant_def)
  from null_ec_rows_never_reach_growth_tab[where N = hangul_normalize and DATA_DIR = dir_extra
      and ?ev1.0 = "[]" and env_data = env_nfd and ?ev2.0 = "[]" and growth_data = growth_extra
      and r = "plant sheet1 None 12" and F = exact_mean and school_option = all_option]
    load_environment_data_dir_extra load_growth_data_dir_extra p n
  have 1: "\<exists>k. k \<notin> set (dict_keys SCHOOL_EC_INFO) \<and>
      run_app hangul_normalize exact_mean dir_extra all_option = ([], Raised (KeyError k))"
    by blast
  have g: "is_growth_output (Growth_table (concat (dict_values growth_nfd)))" by simp
  from null_ec_rows_never_reach_growth_tab[where N = hangul_normalize and DATA_DIR = dir_nfd
      and F = exact_mean and school_option = all_option
      and u = "Growth_table (concat (dict_values growth_nfd))"]
    run_app_nfd_shows_growth_table g
  have 2: "\<exists>ev loaded. load_growth_data dir_nfd = (ev, Inr (Some loaded)) \<and>
      Growth_table (concat (dict_values growth_nfd)) \<in> set (fst (tab3 exact_mean loaded)) \<and>
      (\<forall>x \<in> set (concat (dict_values loaded)). g_ec x \<noteq> None)"
    by blast
  from 1 2 p n load_environment_data_dir_extra load_growth_data_dir_extra
    run_app_nfd_shows_growth_table
  show ?thesis by blast
qed

subsection \<open>C8: the optimal-EC metric of the overview\<close>

text \<open>
  Claim C8. An optimal-EC metric card that a run of the script shows, for any data
  directory and any selection, shows the value 2; and whenever the overview tab
  completes, for any loaded environment and growth mappings, it shows that card.
\<close>

theorem overview_optimal_ec_is_constant:
  "(Metric_optimal_ec v \<in> set (fst (run_app N F DATA_DIR school_option)) \<longrightarrow> v = 2) \<and>
   (snd (tab1 env_data growth_data) = None \<longrightarrow>
      filter (\<lambda>u. \<exists>v. u = Metric_optimal_ec v) (fst (tab1 env_data growth_data))
        = [Metric_optimal_ec 2])"
proof (intro conjI impI)
  assume a: "Metric_optimal_ec v \<in> set (fst (run_app N F DATA_DIR school_option))"
  from run_app_events[OF a] obtain env growth where
    "Metric_optimal_ec v \<in> set (fst (render F env growth school_option))" by auto
  with render_events[of F env growth school_option]
  have "Metric_optimal_ec v \<in> set (fst (tab1 env growth)) \<or>
        Metric_optimal_ec v \<in> set (fst (tab2 env school_option))"
    using tab3_events_not_optimal by blast
  then show "v = 2"
    using tab1_events_optimal[of v env growth] tab2_events[of "Metric_optimal_ec v" env school_option]
    by (auto simp: optimal_ec_def)
next
  assume "snd (tab1 env_data growth_data) = None"
  then show "filter (\<lambda>u. \<exists>v. u = Metric_optimal_ec v) (fst (tab1 env_data growth_data))
        = [Metric_optimal_ec 2]"
    by (auto simp: tab1_def optimal_ec_def split: sum.splits prod.splits)
qed

theorem overview_optimal_ec_is_constant_witness:
  "Metric_optimal_ec 2 \<in> set (fst (run_app hangul_normalize exact_mean dir_nfd all_option)) \<and>
   snd (tab1 env_nfd growth_nfd) = None \<and>
   Metric_optimal_ec 2 \<in> set (fst (tab1 env_nfd growth_nfd)) \<and>
   Metric_temp (Some 20) \<in> set (fst (tab1 env_nfd growth_nfd)) \<and>
   snd (tab1 env_skewed growth_nfd) = None \<and>
   Metric_optimal_ec 2 \<in> set (fst (tab1 env_skewed growth_nfd)) \<and>
   Metric_temp (Some 14) \<in> set (fst (tab1 env_skewed growth_nfd))"
proof -
  have a: "snd (tab1 env_nfd growth_nfd) = None"
    and a': "Metric_temp (Some 20) \<in> set (fst (tab1 env_nfd growth_nfd))"
    by (simp_all add: tab1_nfd)
  have b: "snd (tab1 env_skewed growth_nfd) = None"
    and b': "Metric_temp (Some 14) \<in> set (fst (tab1 env_skewed growth_nfd))"
    by (simp_all add: tab_eval env_skewed_def growth_nfd_def reading_def plant_def names_eval)
  have m: "Metric_optimal_ec 2 \<in> set xs"
    if "filter (\<lambda>u. \<exists>v. u = Metric_optimal_ec v) xs = [Metric_optimal_ec 2]" for xs
  proof -
    from that have "Metric_optimal_ec 2 \<in> set (filter (\<lambda>u. \<exists>v. u = Metric_optimal_ec v) xs)"
      by simp
    then show ?thesis by simp
  qed
  from overview_optimal_ec_is_constant[where env_data = env_nfd and growth_data = growth_nfd] a
  have 1: "Metric_optimal_ec 2 \<in> set (fst (tab1 env_nfd growth_nfd))" using m by blast
  from overview_optimal_ec_is_constant[where env_data = env_skewed and growth_data = growth_nfd] b
  have 2: "Metric_optimal_ec 2 \<in> set (fst (tab1 env_skewed growth_nfd))" using m by blast
  from 1 run_app_nfd_shows_overview
  have 3: "Metric_optimal_ec 2 \<in> set (fst (run_app hangul_normalize exact_mean dir_nfd all_option))"
    by blast
  from a a' b b' 1 2 3 show ?thesis by blast
qed

subsection \<open>C9: the overview's average temperature and humidity\<close>

text \<open>
  Claim C9 says that the overview's averages are the means over all environment rows
  pooled, not the mean of the four per-site means, and that the two differ whenever
  the sites have unequal row counts. The last part fails: in the mapping \<open>env_nfd\<close>,
  loaded from the directory \<open>dir_nfd\<close>, the sites have 1, 2, 1 and 1 rows, every
  row reads 20 degrees and 50 percent, and both averages equal the mean of the
  per-site means.
\<close>

theorem pooled_mean_counterexample:
  "load_environment_data hangul_normalize dir_nfd = ([], Inr (Some env_nfd)) \<and>
   map length (map readings (dict_values env_nfd)) = [1, 2, 1, 1] \<and>
   avg_temp env_nfd = Inr (mean_of_site_means temperature env_nfd) \<and>
   avg_hum env_nfd = Inr (mean_of_site_means humidity env_nfd)"
proof -
  have "map length (map readings (dict_values env_nfd)) = [1, 2, 1, 1]"
    by (simp add: env_nfd_def dict_values_def with_time_def)
  moreover have "avg_temp env_nfd = Inr (mean_of_site_means temperature env_nfd)"
    by (simp add: env_nfd_def mean_eval)
  moreover have "avg_hum env_nfd = Inr (mean_of_site_means humidity env_nfd)"
    by (simp add: env_nfd_def mean_eval)
  ultimately show ?thesis using load_environment_data_dir_nfd by blast
qed

text \<open>
  Claim C9, amended. The overview's average temperature and average humidity are the
  means over the rows of all sites pooled, each row that holds a value with the same
  weight: the sum of the values of all sites divided by their number. This is not the
  mean of the per-site means: with unequal row counts the two can differ (for sites
  with 1, 2, 1, 1 rows reading 10, 20, 20, 10, 10 degrees the pooled mean is 14 and
  the mean of the site means 12.5). They coincide when every site holds the same
  positive number of values.
\<close>

theorem overview_means_are_row_weighted:
  "(env_data \<noteq> [] \<longrightarrow>
      avg_temp env_data = Inr (row_weighted_mean temperature env_data) \<and>
      avg_hum env_data = Inr (row_weighted_mean humidity env_data)) \<and>
   (env_data \<noteq> [] \<and> 0 < n \<and> (\<forall>df \<in> set (dict_values env_data). site_count col df = n) \<longrightarrow>
      mean_of_site_means col env_data = row_weighted_mean col env_data) \<and>
   avg_temp env_skewed = Inr (Some 14) \<and>
   mean_of_site_means temperature env_skewed = Some (25 / 2) \<and>
   avg_hum env_skewed = Inr (Some 48) \<and>
   mean_of_site_means humidity env_skewed = Some 45"
proof (intro conjI impI)
  assume "env_data \<noteq> []"
  then show "avg_temp env_data = Inr (row_weighted_mean temperature env_data)"
    and "avg_hum env_data = Inr (row_weighted_mean humidity env_data)"
    by (simp_all add: avg_temp_def avg_hum_def pooled_mean_weighted)
next
  assume "env_data \<noteq> [] \<and> 0 < n \<and> (\<forall>df \<in> set (dict_values env_data). site_count col df = n)"
  then show "mean_of_site_means col env_data = row_weighted_mean col env_data"
    using equal_counts_coincide[of n env_data col] by blast
next
  show "avg_temp env_skewed = Inr (Some 14)"
    by (simp add: env_skewed_def mean_eval)
  show "mean_of_site_means temperature env_skewed = Some (25 / 2)"
    by (simp add: env_skewed_def mean_eval)
  show "avg_hum env_skewed = Inr (Some 48)"
    by (simp add: env_skewed_def mean_eval)
  show "mean_of_site_means humidity env_skewed = Some 45"
    by (simp add: env_skewed_def mean_eval)
qed

theorem overview_means_are_row_weighted_witness:
  "env_equal \<noteq> [] \<and>
   map (site_count temperature) (dict_values env_equal) = [1, 1, 1, 1] \<and>
   avg_temp env_equal = Inr (row_weighted_mean temperature env_equal) \<and>
   row_weighted_mean temperature env_equal = Some 25 \<and>
   mean_of_site_means temperature env_equal = row_weighted_mean temperature env_equal"
proof -
  have ne: "env_equal \<noteq> []" by (simp add: env_equal_def)
  have c: "map (site_count temperature) (dict_values env_equal) = [1, 1, 1, 1]"
    by (simp add: env_equal_def mean_eval)
  then have "set (map (site_count temperature) (dict_values env_equal)) = {1}" by simp
  then have all: "\<forall>df \<in> set (dict_values env_equal). site_count temperature df = 1" by auto
  have v: "row_weighted_mean temperature env_equal = Some 25"
    by (simp add: env_equal_def mean_eval)
  note t = overview_means_are_row_weighted[of env_equal 1 temperature]
  from t ne have 1: "avg_temp env_equal = Inr (row_weighted_mean temperature env_equal)"
    by blast
  from t ne all
  have 2: "mean_of_site_means temperature env_equal = row_weighted_mean temperature env_equal"
    by simp
  from ne c v 1 2 show ?thesis by blast
qed

subsection \<open>C10: the exports and the site filter\<close>

text \<open>
  Claim C10 says that the selection of the side bar has no influence on the exports.
  It has one: the time-series charts come before the exports and read the \<open>time\<close>
  column of the plotted sites only. In the directory \<open>dir_no_time\<close> the table of the
  second site has no such column. With every site selected, the chart of that site
  raises and the run offers no download; with the first site selected, the run
  completes and offers both.
\<close>

theorem exports_depend_on_selection_counterexample:
  "all_option \<in> set selectbox_options \<and> songdo \<in> set selectbox_options \<and>
   load_environment_data hangul_normalize dir_no_time = ([], Inr (Some env_no_time)) \<and>
   load_growth_data dir_no_time = ([], Inr (Some growth_nfd)) \<and>
   filter is_download (fst (run_app hangul_normalize exact_mean dir_no_time all_option)) = [] \<and>
   snd (run_app hangul_normalize exact_mean dir_no_time all_option)
     = Raised (KeyError time_column) \<and>
   filter is_download (fst (run_app hangul_normalize exact_mean dir_no_time songdo))
     = [Env_download (concat (map readings (dict_values env_no_time))),
        Growth_download (concat (dict_values growth_nfd))] \<and>
   snd (run_app hangul_normalize exact_mean dir_no_time songdo) = Completed"
  using selectbox_options_examples(1) selectbox_options_songdo
    load_environment_data_dir_no_time load_growth_data_dir_no_time
    run_app_dir_no_time_all run_app_dir_no_time_songdo
  by blast

text \<open>
  Claim C10, amended. Both exports serialize the row-wise concatenation of all
  per-site tables, whatever the selection: the downloads a run offers are the first
  none, one or two of the two exports of the loaded data, and both of them when the
  run completes. The selection does not enter their content. It can decide only
  whether they are reached: when every loaded environment table has the \<open>time\<close>
  column, any two selections the select box offers give the same downloads and the
  same end of the run.
\<close>

theorem exports_ignore_site_filter:
  assumes "sel1 \<in> set selectbox_options" and "sel2 \<in> set selectbox_options"
  shows "(\<exists>n. filter is_download (fst (run_app N F DATA_DIR sel1))
                = take n (full_exports N DATA_DIR)) \<and>
         (snd (run_app N F DATA_DIR sel1) = Completed \<longrightarrow>
            filter is_download (fst (run_app N F DATA_DIR sel1)) = full_exports N DATA_DIR \<and>
            (\<exists>ev1 ev2 env_data growth_data.
               load_environment_data N DATA_DIR = (ev1, Inr (Some env_data)) \<and>
               load_growth_data DATA_DIR = (ev2, Inr (Some growth_data)) \<and>
               full_exports N DATA_DIR
                 = [Env_download (concat (map readings (dict_values env_data))),
                    Growth_download (concat (dict_values growth_data))])) \<and>
         ((\<forall>ev1 env_data. load_environment_data N DATA_DIR = (ev1, Inr (Some env_data)) \<longrightarrow>
             (\<forall>df \<in> set (dict_values env_data). has_time df)) \<longrightarrow>
            filter is_download (fst (run_app N F DATA_DIR sel1))
              = filter is_download (fst (run_app N F DATA_DIR sel2)) \<and>
            snd (run_app N F DATA_DIR sel1) = snd (run_app N F DATA_DIR sel2))"
  using run_app_downloads[of N F DATA_DIR sel1]
    run_app_selection_independent[OF assms, of N DATA_DIR F]
  by blast

theorem exports_ignore_site_filter_witness:
  "all_option \<in> set selectbox_options \<and> haneul \<in> set selectbox_options \<and>
   load_environment_data hangul_normalize dir_nfd = ([], Inr (Some env_nfd)) \<and>
   snd (run_app hangul_normalize exact_mean dir_nfd all_option) = Completed \<and>
   snd (run_app hangul_normalize exact_mean dir_nfd haneul) = Completed \<and>
   full_exports hangul_normalize dir_nfd
     = [Env_download (concat (map readings (dict_values env_nfd))),
        Growth_download (concat (dict_values growth_nfd))] \<and>
   filter is_download (fst (run_app hangul_normalize exact_mean dir_nfd all_option))
     = full_exports hangul_normalize dir_nfd \<and>
   filter is_download (fst (run_app hangul_normalize exact_mean dir_nfd haneul))
     = full_exports hangul_normalize dir_nfd"
proof -
  note t = exports_ignore_site_filter[OF selectbox_options_examples,
      of hangul_normalize exact_mean dir_nfd]
  have h: "\<forall>ev1 env_data.
      load_environment_data hangul_normalize dir_nfd = (ev1, Inr (Some env_data)) \<longrightarrow>
      (\<forall>df \<in> set (dict_values env_data). has_time df)"
    using env_nfd_has_time by (simp add: load_environment_data_dir_nfd)
  have f: "full_exports hangul_normalize dir_nfd
     = [Env_download (concat (map readings (dict_values env_nfd))),
        Growth_download (concat (dict_values growth_nfd))]"
    by (simp add: full_exports_def load_environment_data_dir_nfd load_growth_data_dir_nfd)
  from t run_app_nfd_completes
  have d: "filter is_download (fst (run_app hangul_normalize exact_mean dir_nfd all_option))
     = full_exports hangul_normalize dir_nfd" by blast
  from t h run_app_nfd_completes
  have c: "snd (run_app hangul_normalize exact_mean dir_nfd haneul) = Completed" by simp
  from t h d
  have e: "filter is_download (fst (run_app hangul_normalize exact_mean dir_nfd haneul))
     = full_exports hangul_normalize dir_nfd" by simp
  from selectbox_options_examples load_environment_data_dir_nfd run_app_nfd_completes c d e f
  show ?thesis by blast
qed

end
